theory Spec2Isabelle
  imports Complex_Main "HOL-Library.Multiset"
begin

section \<open>Core types (core/types.ts)\<close>

text \<open>
  JavaScript numbers are modelled as mathematical reals: rounding, NaN and the infinities
  are outside the model, and a place where the source relies on \<open>Infinity\<close> is written
  out as an option or a case distinction. Counters that only ever hold lengths or
  points are integers.
\<close>

datatype BallColor = RED | BLUE | GREEN | YELLOW | PURPLE

datatype BallState = NORMAL | INSERTED | EXPLODING

record Point =
  pt_x :: real
  pt_y :: real

definition BALL_RADIUS :: real where
  "BALL_RADIUS = 16"

definition SHOOTER_COOLDOWN :: real where
  "SHOOTER_COOLDOWN = 200"

definition SNAP_BACK_SPEED :: real where
  "SNAP_BACK_SPEED = 400"

section \<open>Ball (core/Ball.ts)\<close>

text \<open>
  A ball object. Its \<open>prev\<close> and \<open>next\<close> links are not fields of the record: the chain
  below holds its balls as a list from head to tail, and the links of a ball in the
  chain are its neighbours in that list. A reference to a ball object is a ball record,
  and the object it refers to is found by \<open>ball_id\<close>.
\<close>

record Ball =
  ball_id :: string
  color :: BallColor
  distanceAlongPath :: real
  ball_state :: BallState
  ball_x :: real
  ball_y :: real
  velocityX :: real
  velocityY :: real

definition new_Ball :: "string \<Rightarrow> BallColor \<Rightarrow> real \<Rightarrow> Ball" where
  "new_Ball i col d =
     \<lparr>ball_id = i, color = col, distanceAlongPath = d, ball_state = NORMAL,
      ball_x = 0, ball_y = 0, velocityX = 0, velocityY = 0\<rparr>"

definition updatePosition :: "Ball \<Rightarrow> real \<Rightarrow> Ball" where
  "updatePosition b deltaTime =
     b\<lparr>ball_x := ball_x b + velocityX b * deltaTime, ball_y := ball_y b + velocityY b * deltaTime\<rparr>"

definition isOffScreen :: "Ball \<Rightarrow> real \<Rightarrow> real \<Rightarrow> real \<Rightarrow> bool" where
  "isOffScreen b width height margin =
     (ball_x b < - margin \<or> ball_x b > width + margin
      \<or> ball_y b < - margin \<or> ball_y b > height + margin)"

definition markInserted :: "Ball \<Rightarrow> Ball" where
  "markInserted b = b\<lparr>ball_state := INSERTED\<rparr>"

section \<open>Chain (core/Chain.ts)\<close>

record Chain =
  balls :: "Ball list"
  velocity :: real
  splitPoint :: "real option"
  backVelocity :: real
  isClosingGap :: bool

definition new_Chain :: Chain where
  "new_Chain = \<lparr>balls = [], velocity = 50, splitPoint = None, backVelocity = 0,
                 isClosingGap = False\<rparr>"

definition head :: "Chain \<Rightarrow> Ball option" where
  "head c = (case balls c of [] \<Rightarrow> None | b # _ \<Rightarrow> Some b)"

definition tail :: "Chain \<Rightarrow> Ball option" where
  "tail c = (if balls c = [] then None else Some (last (balls c)))"

definition isEmpty :: "Chain \<Rightarrow> bool" where
  "isEmpty c = (head c = None)"

definition getLength :: "Chain \<Rightarrow> nat" where
  "getLength c = length (balls c)"

definition getFrontBall :: "Chain \<Rightarrow> Ball option" where
  "getFrontBall c = head c"

definition isGapClosing :: "Chain \<Rightarrow> bool" where
  "isGapClosing c = isClosingGap c"

text \<open>
  \<open>pushBallsBack\<close> walks the \<open>next\<close> links from the inserted ball to the tail. Its
  second argument is the list of balls behind the inserted one, its first the loop
  variable \<open>prevDistance\<close>, which starts as the inserted ball's distance.
\<close>

fun pushBallsBack :: "real \<Rightarrow> Ball list \<Rightarrow> Ball list" where
  "pushBallsBack prevDistance [] = []"
| "pushBallsBack prevDistance (cur # rest) =
     (let cur' = (if distanceAlongPath cur < prevDistance + BALL_RADIUS * 2
                  then cur\<lparr>distanceAlongPath := prevDistance + BALL_RADIUS * 2\<rparr>
                  else cur)
      in cur' # pushBallsBack (distanceAlongPath cur') rest)"

text \<open>
  \<open>insertBall\<close>, the branch for an \<open>afterBall\<close>: the new ball is linked in behind
  \<open>afterBall\<close> and the balls behind it are pushed back. An \<open>afterBall\<close> that is not in
  the chain leaves the chain as seen from its head unchanged.
\<close>

fun insertAfter :: "Ball \<Rightarrow> Ball \<Rightarrow> Ball list \<Rightarrow> Ball list" where
  "insertAfter ball afterBall [] = []"
| "insertAfter ball afterBall (b # bs) =
     (if ball_id b = ball_id afterBall
      then b # ball # pushBallsBack (distanceAlongPath ball) bs
      else b # insertAfter ball afterBall bs)"

definition insertBall :: "Chain \<Rightarrow> Ball \<Rightarrow> Ball option \<Rightarrow> Chain" where
  "insertBall c ball afterBall =
     (case afterBall of
        None \<Rightarrow> c\<lparr>balls := ball # pushBallsBack (distanceAlongPath ball) (balls c)\<rparr>
      | Some a \<Rightarrow> c\<lparr>balls := insertAfter ball a (balls c)\<rparr>)"

text \<open>A sequence of insertions, each given as the ball and the ball to insert it after.\<close>

fun insertAll :: "Chain \<Rightarrow> (Ball \<times> Ball option) list \<Rightarrow> Chain" where
  "insertAll c [] = c"
| "insertAll c ((ball, afterBall) # rest) = insertAll (insertBall c ball afterBall) rest"

text \<open>
  The spacing property of the specification: every two neighbours in the chain are at
  least \<open>2 * BALL_RADIUS\<close> apart; and its ascending form, where each ball is at least
  that far behind the one before it.
\<close>

fun spaced :: "Ball list \<Rightarrow> bool" where
  "spaced [] = True"
| "spaced [b] = True"
| "spaced (a # b # bs) =
     (\<bar>distanceAlongPath b - distanceAlongPath a\<bar> \<ge> 2 * BALL_RADIUS \<and> spaced (b # bs))"

fun spacedAscending :: "Ball list \<Rightarrow> bool" where
  "spacedAscending [] = True"
| "spacedAscending [b] = True"
| "spacedAscending (a # b # bs) =
     (distanceAlongPath a + 2 * BALL_RADIUS \<le> distanceAlongPath b \<and> spacedAscending (b # bs))"

text \<open>
  An insertion is placed apart when the new ball goes to the head, or when its distance
  differs by at least \<open>2 * BALL_RADIUS\<close> from that of the chain ball it is inserted
  after; \<open>allPlacedApart\<close> asks this of every insertion of a sequence, each in the chain
  the insertions before it have produced.
\<close>

definition placedApart :: "Chain \<Rightarrow> Ball \<Rightarrow> Ball option \<Rightarrow> bool" where
  "placedApart c ball afterBall =
     (case afterBall of
        None \<Rightarrow> True
      | Some a \<Rightarrow>
          (case find (\<lambda>b. ball_id b = ball_id a) (balls c) of
             None \<Rightarrow> True
           | Some r \<Rightarrow> \<bar>distanceAlongPath ball - distanceAlongPath r\<bar> \<ge> 2 * BALL_RADIUS))"

fun allPlacedApart :: "Chain \<Rightarrow> (Ball \<times> Ball option) list \<Rightarrow> bool" where
  "allPlacedApart c [] = True"
| "allPlacedApart c ((ball, afterBall) # rest) =
     (placedApart c ball afterBall \<and> allPlacedApart (insertBall c ball afterBall) rest)"

text \<open>
  The links of a ball, read off the chain. \<open>ballsBefore\<close> are the balls met when walking
  the \<open>prev\<close> links from the ball (nearest first), \<open>ballsBehind\<close> those met when walking
  the \<open>next\<close> links. A ball that is not in the chain has both links null.
\<close>

definition ballsBefore :: "Ball list \<Rightarrow> Ball \<Rightarrow> Ball list" where
  "ballsBefore xs ball =
     (if ball_id ball \<in> ball_id ` set xs
      then rev (takeWhile (\<lambda>b. ball_id b \<noteq> ball_id ball) xs) else [])"

definition ballsBehind :: "Ball list \<Rightarrow> Ball \<Rightarrow> Ball list" where
  "ballsBehind xs ball =
     (case dropWhile (\<lambda>b. ball_id b \<noteq> ball_id ball) xs of [] \<Rightarrow> [] | _ # rest \<Rightarrow> rest)"

definition prevOf :: "Ball list \<Rightarrow> Ball \<Rightarrow> Ball option" where
  "prevOf xs ball = (case ballsBefore xs ball of [] \<Rightarrow> None | p # _ \<Rightarrow> Some p)"

definition nextOf :: "Ball list \<Rightarrow> Ball \<Rightarrow> Ball option" where
  "nextOf xs ball = (case ballsBehind xs ball of [] \<Rightarrow> None | n # _ \<Rightarrow> Some n)"

text \<open>
  \<open>removeBall\<close> unlinks a ball of the chain. For a ball that is not in the chain both
  links are null, so both else-branches of the source run and set \<open>head\<close> and \<open>tail\<close> to
  null: the chain is empty afterwards.
\<close>

definition removeBall :: "Chain \<Rightarrow> Ball \<Rightarrow> Chain" where
  "removeBall c ball =
     (if ball_id ball \<in> ball_id ` set (balls c)
      then c\<lparr>balls := filter (\<lambda>b. ball_id b \<noteq> ball_id ball) (balls c)\<rparr>
      else c\<lparr>balls := []\<rparr>)"

text \<open>
  \<open>removeBalls\<close> returns the chain and the pair \<open>frontBall\<close>, \<open>backBall\<close>. The array is
  sorted by distance with the stable sort of the language, the two boundary balls are
  read from the links of its first and last element before anything is removed, and
  then each ball is removed in turn.
\<close>

definition removeBalls :: "Chain \<Rightarrow> Ball list \<Rightarrow> Chain \<times> Ball option \<times> Ball option" where
  "removeBalls c bs =
     (if bs = [] then (c, None, None)
      else let sorted_bs = sort_key distanceAlongPath bs;
               frontBall = prevOf (balls c) (hd sorted_bs);
               backBall = nextOf (balls c) (last sorted_bs);
               c' = foldl removeBall c sorted_bs
           in case (frontBall, backBall) of
                (Some f, Some b) \<Rightarrow>
                  (c'\<lparr>splitPoint := Some (distanceAlongPath f + BALL_RADIUS * 2),
                      backVelocity := - SNAP_BACK_SPEED,
                      isClosingGap := True\<rparr>, frontBall, backBall)
              | _ \<Rightarrow> (c', frontBall, backBall))"

text \<open>
  The ordering of the data model: distances strictly increase from head to tail.
  \<open>keptAhead\<close> are the balls of the chain before the first one that is removed,
  \<open>keptBehind\<close> those after the last one that is removed.
\<close>

fun ascending :: "Ball list \<Rightarrow> bool" where
  "ascending [] = True"
| "ascending [b] = True"
| "ascending (a # b # bs) = (distanceAlongPath a < distanceAlongPath b \<and> ascending (b # bs))"

definition keptAhead :: "Ball list \<Rightarrow> Ball list \<Rightarrow> Ball list" where
  "keptAhead xs bs = takeWhile (\<lambda>b. b \<notin> set bs) xs"

definition keptBehind :: "Ball list \<Rightarrow> Ball list \<Rightarrow> Ball list" where
  "keptBehind xs bs = rev (takeWhile (\<lambda>b. b \<notin> set bs) (rev xs))"

text \<open>\<open>updateNormalMovement\<close>: every ball moves toward the hole by \<open>velocity * deltaTime\<close>.\<close>

definition updateNormalMovement :: "Chain \<Rightarrow> real \<Rightarrow> Chain" where
  "updateNormalMovement c deltaTime =
     (let movement = velocity c * deltaTime
      in c\<lparr>balls := map (\<lambda>b. b\<lparr>distanceAlongPath := distanceAlongPath b - movement\<rparr>)
                         (balls c)\<rparr>)"

text \<open>
  \<open>snapGapClosed\<close>. The loop walks the \<open>next\<close> links from \<open>backBall\<close>; \<open>repackFrom\<close> is
  that loop, with \<open>prevDistance\<close> as its first argument. The two balls are given with their
  place in the chain: \<open>front\<close> are the balls up to and including \<open>frontBall\<close>, and \<open>rest\<close>
  are the balls behind \<open>backBall\<close>.
\<close>

fun repackFrom :: "real \<Rightarrow> Ball list \<Rightarrow> Ball list" where
  "repackFrom prevDistance [] = []"
| "repackFrom prevDistance (cur # rest) =
     (let cur' = cur\<lparr>distanceAlongPath := prevDistance + BALL_RADIUS * 2\<rparr>
      in cur' # repackFrom (distanceAlongPath cur') rest)"

definition snapGapClosed :: "Chain \<Rightarrow> Ball list \<Rightarrow> Ball \<Rightarrow> Ball list \<Rightarrow> Chain" where
  "snapGapClosed c front backBall rest =
     (let frontBall = last front;
          backBall' = backBall\<lparr>distanceAlongPath := distanceAlongPath frontBall + BALL_RADIUS * 2\<rparr>
      in c\<lparr>balls := front @ backBall' # repackFrom (distanceAlongPath backBall') rest,
            splitPoint := None, backVelocity := 0, isClosingGap := False\<rparr>)"

text \<open>
  \<open>updateGapClosing\<close>. \<open>backStart\<close> is the first ball from the head whose distance is at
  least the split point; it and every ball behind it move by \<open>backVelocity * deltaTime\<close>.
  If \<open>backStart\<close> has a ball before it and the gap between the two is at most
  \<open>2 * BALL_RADIUS\<close> after the move, the gap is snapped closed.
\<close>

definition updateGapClosing :: "Chain \<Rightarrow> real \<Rightarrow> Chain" where
  "updateGapClosing c deltaTime =
     (case splitPoint c of
        None \<Rightarrow> c
      | Some sp \<Rightarrow>
          (let backMovement = backVelocity c * deltaTime;
               front = takeWhile (\<lambda>b. \<not> distanceAlongPath b \<ge> sp) (balls c);
               back = dropWhile (\<lambda>b. \<not> distanceAlongPath b \<ge> sp) (balls c)
           in case map (\<lambda>b. b\<lparr>distanceAlongPath := distanceAlongPath b + backMovement\<rparr>) back of
                [] \<Rightarrow> c
              | backStart # rest \<Rightarrow>
                  (if front = [] then c\<lparr>balls := backStart # rest\<rparr>
                   else let frontBall = last front;
                            gap = distanceAlongPath backStart - distanceAlongPath frontBall
                        in if gap \<le> BALL_RADIUS * 2
                           then snapGapClosed c front backStart rest
                           else c\<lparr>balls := front @ backStart # rest\<rparr>)))"

text \<open>\<open>Chain.update\<close>.\<close>

definition Chain_update :: "Chain \<Rightarrow> real \<Rightarrow> Chain" where
  "Chain_update c deltaTime =
     (if isClosingGap c then updateGapClosing c deltaTime else updateNormalMovement c deltaTime)"

section \<open>Path (core/Path.ts)\<close>

text \<open>
  The constructor throws for fewer than 4 control points. Reading a control point at an
  index outside the array gives \<open>undefined\<close> in the source, and reading a coordinate of
  it throws a \<open>TypeError\<close>; \<open>controlPointAt\<close> makes that a result, so that every way the
  constructor can fail is a value of the model.
\<close>

datatype error = Error string | TypeError string

record Path =
  path_id :: string
  controlPoints :: "Point list"
  totalLength :: real
  holePosition :: Point
  spawnPosition :: Point
  arcLengthTable :: "real list"

definition SEGMENTS_PER_CURVE :: int where
  "SEGMENTS_PER_CURVE = 50"

definition cubicBezier :: "Point \<Rightarrow> Point \<Rightarrow> Point \<Rightarrow> Point \<Rightarrow> real \<Rightarrow> Point" where
  "cubicBezier p0 p1 p2 p3 t =
     (let t2 = t * t; t3 = t2 * t; mt = 1 - t; mt2 = mt * mt; mt3 = mt2 * mt
      in \<lparr>pt_x = mt3 * pt_x p0 + 3 * mt2 * t * pt_x p1 + 3 * mt * t2 * pt_x p2 + t3 * pt_x p3,
          pt_y = mt3 * pt_y p0 + 3 * mt2 * t * pt_y p1 + 3 * mt * t2 * pt_y p2 + t3 * pt_y p3\<rparr>)"

definition controlPointAt :: "Point list \<Rightarrow> int \<Rightarrow> error + Point" where
  "controlPointAt cps i =
     (if 0 \<le> i \<and> i < int (length cps) then Inr (cps ! nat i)
      else Inl (TypeError ''Cannot read properties of undefined''))"

definition numSegments :: "Point list \<Rightarrow> int" where
  "numSegments cps = \<lfloor>(real (length cps) - 1) / 3\<rfloor>"

definition getPointAtT :: "Point list \<Rightarrow> real \<Rightarrow> error + Point" where
  "getPointAtT cps t0 =
     (let t = max 0 (min 1 t0);
          segmentT = t * of_int (numSegments cps);
          segmentIndex = min \<lfloor>segmentT\<rfloor> (numSegments cps - 1);
          localT = segmentT - of_int segmentIndex;
          i = segmentIndex * 3
      in case controlPointAt cps i of Inl e \<Rightarrow> Inl e | Inr p0 \<Rightarrow>
         (case controlPointAt cps (i + 1) of Inl e \<Rightarrow> Inl e | Inr p1 \<Rightarrow>
         (case controlPointAt cps (i + 2) of Inl e \<Rightarrow> Inl e | Inr p2 \<Rightarrow>
         (case controlPointAt cps (i + 3) of Inl e \<Rightarrow> Inl e | Inr p3 \<Rightarrow>
            Inr (cubicBezier p0 p1 p2 p3 localT)))))"

text \<open>
  \<open>calculateTotalLength\<close> and \<open>buildArcLengthTable\<close>: both iterate over \<open>i = 1, \<dots>, steps\<close>
  and add up the chords between successive points of the curve.
\<close>

fun totalLengthLoop :: "Point list \<Rightarrow> int \<Rightarrow> int list \<Rightarrow> real \<Rightarrow> Point \<Rightarrow> error + real" where
  "totalLengthLoop cps steps [] len prevPoint = Inr len"
| "totalLengthLoop cps steps (i # is) len prevPoint =
     (case getPointAtT cps (of_int i / of_int steps) of
        Inl e \<Rightarrow> Inl e
      | Inr point \<Rightarrow>
          (let dx = pt_x point - pt_x prevPoint;
               dy = pt_y point - pt_y prevPoint
           in totalLengthLoop cps steps is (len + sqrt (dx * dx + dy * dy)) point))"

definition calculateTotalLength :: "Point list \<Rightarrow> error + real" where
  "calculateTotalLength cps =
     (let steps = SEGMENTS_PER_CURVE * numSegments cps
      in case getPointAtT cps 0 of
           Inl e \<Rightarrow> Inl e
         | Inr prevPoint \<Rightarrow> totalLengthLoop cps steps [1..steps] 0 prevPoint)"

fun arcLengthLoop ::
  "Point list \<Rightarrow> int \<Rightarrow> int list \<Rightarrow> real list \<Rightarrow> real \<Rightarrow> Point \<Rightarrow> error + real list" where
  "arcLengthLoop cps steps [] table len prevPoint = Inr table"
| "arcLengthLoop cps steps (i # is) table len prevPoint =
     (case getPointAtT cps (of_int i / of_int steps) of
        Inl e \<Rightarrow> Inl e
      | Inr point \<Rightarrow>
          (let dx = pt_x point - pt_x prevPoint;
               dy = pt_y point - pt_y prevPoint;
               len' = len + sqrt (dx * dx + dy * dy)
           in arcLengthLoop cps steps is (table @ [len']) len' point))"

definition buildArcLengthTable :: "Point list \<Rightarrow> error + real list" where
  "buildArcLengthTable cps =
     (let steps = SEGMENTS_PER_CURVE * numSegments cps
      in case getPointAtT cps 0 of
           Inl e \<Rightarrow> Inl e
         | Inr prevPoint \<Rightarrow> arcLengthLoop cps steps [1..steps] [0] 0 prevPoint)"

text \<open>The constructor, in the order of its assignments.\<close>

definition new_Path :: "string \<Rightarrow> Point list \<Rightarrow> error + Path" where
  "new_Path pid cps =
     (if length cps < 4 then Inl (Error ''Path requires at least 4 control points'')
      else case calculateTotalLength cps of Inl e \<Rightarrow> Inl e | Inr len \<Rightarrow>
          (case getPointAtT cps 0 of Inl e \<Rightarrow> Inl e | Inr hole \<Rightarrow>
          (case getPointAtT cps 1 of Inl e \<Rightarrow> Inl e | Inr spawn \<Rightarrow>
          (case buildArcLengthTable cps of Inl e \<Rightarrow> Inl e | Inr table \<Rightarrow>
             Inr \<lparr>path_id = pid, controlPoints = cps, totalLength = len,
                  holePosition = hole, spawnPosition = spawn, arcLengthTable = table\<rparr>))))"

section \<open>Collision (core/Collision.ts)\<close>

definition checkHoleCollision :: "Chain \<Rightarrow> bool" where
  "checkHoleCollision c =
     (if isEmpty c then False
      else case getFrontBall c of
             None \<Rightarrow> False
           | Some headBall \<Rightarrow> distanceAlongPath headBall \<le> 0)"

text \<open>
  \<open>checkBallChainCollision\<close>. The two queries of the path that it uses,
  \<open>getPointAtDistance\<close> and \<open>getTangentAtDistance\<close>, are parameters. \<open>closestLoop\<close> is the
  loop over the chain with its three variables; \<open>closestDist\<close> starts as \<open>Infinity\<close>,
  which is \<open>None\<close> here. \<open>distance\<close> is the helper of core/types.ts.
\<close>

definition distance :: "Point \<Rightarrow> Point \<Rightarrow> real" where
  "distance a b = (let dx = pt_x b - pt_x a; dy = pt_y b - pt_y a in sqrt (dx * dx + dy * dy))"

record CollisionResult =
  collidedWith :: Ball
  insertBefore :: bool
  insertionDistance :: real

fun closestLoop :: "(real \<Rightarrow> Point) \<Rightarrow> Point \<Rightarrow> Ball list
     \<Rightarrow> Ball option \<times> real option \<times> real \<Rightarrow> Ball option \<times> real option \<times> real" where
  "closestLoop getPointAtDistance firedPos [] st = st"
| "closestLoop getPointAtDistance firedPos (cur # rest) (closestBall, closestDist, closestPathDist) =
     (let ballPos = getPointAtDistance (distanceAlongPath cur);
          d = distance firedPos ballPos
      in if d < BALL_RADIUS * 2 \<and> (case closestDist of None \<Rightarrow> True | Some cd \<Rightarrow> d < cd)
         then closestLoop getPointAtDistance firedPos rest (Some cur, Some d, distanceAlongPath cur)
         else closestLoop getPointAtDistance firedPos rest (closestBall, closestDist, closestPathDist))"

definition checkBallChainCollision ::
  "Ball \<Rightarrow> Chain \<Rightarrow> (real \<Rightarrow> Point) \<Rightarrow> (real \<Rightarrow> Point) \<Rightarrow> CollisionResult option" where
  "checkBallChainCollision firedBall chain getPointAtDistance getTangentAtDistance =
     (let firedPos = \<lparr>pt_x = ball_x firedBall, pt_y = ball_y firedBall\<rparr>
      in case closestLoop getPointAtDistance firedPos (balls chain) (None, None, 0) of
           (None, _, _) \<Rightarrow> None
         | (Some closestBall, _, closestPathDist) \<Rightarrow>
             (let collidedPos = getPointAtDistance (distanceAlongPath closestBall);
                  tangent = getTangentAtDistance (distanceAlongPath closestBall);
                  toFired = \<lparr>pt_x = pt_x firedPos - pt_x collidedPos,
                             pt_y = pt_y firedPos - pt_y collidedPos\<rparr>;
                  dot = pt_x toFired * pt_x tangent + pt_y toFired * pt_y tangent;
                  before = dot < 0;
                  insDist = (if before then closestPathDist - BALL_RADIUS * 2
                             else closestPathDist + BALL_RADIUS * 2)
              in Some \<lparr>collidedWith = closestBall, insertBefore = before,
                       insertionDistance = max 0 insDist\<rparr>))"

text \<open>
  \<open>findMatch\<close>. The two scans walk the \<open>prev\<close> and the \<open>next\<close> links of the start ball;
  \<open>unshift\<close> puts a ball in front of the collected run, \<open>push\<close> behind it.
\<close>

record MatchResult =
  match_balls :: "Ball list"
  match_color :: BallColor

fun scanBackward :: "BallColor \<Rightarrow> Ball list \<Rightarrow> Ball list \<Rightarrow> Ball list" where
  "scanBackward col [] matchingBalls = matchingBalls"
| "scanBackward col (cur # others) matchingBalls =
     (if color cur = col then scanBackward col others (cur # matchingBalls) else matchingBalls)"

fun scanForward :: "BallColor \<Rightarrow> Ball list \<Rightarrow> Ball list \<Rightarrow> Ball list" where
  "scanForward col [] matchingBalls = matchingBalls"
| "scanForward col (cur # others) matchingBalls =
     (if color cur = col then scanForward col others (matchingBalls @ [cur]) else matchingBalls)"

definition findMatch :: "Ball list \<Rightarrow> Ball \<Rightarrow> MatchResult option" where
  "findMatch chainBalls startBall =
     (let col = color startBall;
          matchingBalls = scanBackward col (ballsBefore chainBalls startBall) [startBall];
          matchingBalls = scanForward col (ballsBehind chainBalls startBall) matchingBalls
      in if length matchingBalls \<ge> 3
         then Some \<lparr>match_balls = matchingBalls, match_color = col\<rparr>
         else None)"

section \<open>Shooter (core/Shooter.ts)\<close>

record Shooter =
  position :: Point
  rotation :: real
  currentBall :: BallColor
  reserveBall :: BallColor
  cooldown :: real
  availableColors :: "BallColor list"

definition swap :: "Shooter \<Rightarrow> Shooter" where
  "swap s = (let temp = currentBall s
             in s\<lparr>currentBall := reserveBall s, reserveBall := temp\<rparr>)"

section \<open>Score (core/Score.ts)\<close>

record Score =
  current :: int
  total_points :: int
  chainMultiplier :: int
  highScore :: int

text \<open>\<open>addMatchPoints\<close> returns the updated score object and the points awarded.\<close>

definition addMatchPoints :: "Score \<Rightarrow> int \<Rightarrow> Score \<times> int" where
  "addMatchPoints sc ballCount =
     (if ballCount = 3 then
        (let points = 100 * chainMultiplier sc in (sc\<lparr>current := current sc + points\<rparr>, points))
      else if ballCount = 4 then
        (let points = 150 * chainMultiplier sc in (sc\<lparr>current := current sc + points\<rparr>, points))
      else if ballCount \<ge> 5 then
        (let points = (200 + 50 * (ballCount - 5)) * chainMultiplier sc
         in (sc\<lparr>current := current sc + points\<rparr>, points))
      else (sc, 0))"

definition incrementChainMultiplier :: "Score \<Rightarrow> Score" where
  "incrementChainMultiplier sc = sc\<lparr>chainMultiplier := chainMultiplier sc + 1\<rparr>"

definition resetChainMultiplier :: "Score \<Rightarrow> Score" where
  "resetChainMultiplier sc = sc\<lparr>chainMultiplier := 1\<rparr>"

text \<open>
  The tier table in the words of the specification, as a function of the run size; it is
  what \<open>addMatchPoints\<close> is compared with.
\<close>

definition spec_base_points :: "int \<Rightarrow> int" where
  "spec_base_points n = (if n = 3 then 100 else if n = 4 then 150 else 200 + 50 * (n - 5))"

section \<open>BallSpawner (core/BallSpawner.ts)\<close>

text \<open>
  The identifier of a new ball comes from \<open>generateId\<close> and its colour from a random
  choice. Both are inputs of the model: a \<open>BallSource\<close> gives the identifier and the
  colour of the ball that is created when the chain holds the given balls.
\<close>

type_synonym BallSource = "Ball list \<Rightarrow> string \<times> BallColor"

record BallSpawner =
  spawnColors :: "BallColor list"
  spawnRate :: real
  accumulator :: real

definition spawnBall :: "BallSource \<Rightarrow> Chain \<Rightarrow> Path \<Rightarrow> Chain \<times> Ball option" where
  "spawnBall src chain path =
     (let spawnDistance = totalLength path;
          minSpacing = BALL_RADIUS * 2
      in if (case tail chain of
               Some t \<Rightarrow> spawnDistance - distanceAlongPath t < minSpacing
             | None \<Rightarrow> False)
         then (chain, None)
         else (let (i, col) = src (balls chain);
                   ball = new_Ball i col spawnDistance
               in case tail chain of
                    Some t \<Rightarrow> (insertBall chain ball (Some t), Some ball)
                  | None \<Rightarrow> (insertBall chain ball None, Some ball)))"

text \<open>
  \<open>update\<close>. \<open>spawnLoop\<close> is its while loop over the accumulator, the chain and the count
  of spawned balls. With a spawn rate that is not positive the loop need not end, so it is
  a partial function: \<open>None\<close> stands for a call that does not return. A spawn rate of 0
  makes the interval \<open>Infinity\<close> in the source, and the loop is not entered.
\<close>

partial_function (option) spawnLoop ::
  "BallSource \<Rightarrow> Path \<Rightarrow> real \<Rightarrow> real \<Rightarrow> real \<times> Chain \<times> nat \<Rightarrow> (real \<times> Chain \<times> nat) option"
where
  "spawnLoop src path maxBalls spawnInterval st =
     (case st of (acc, chain, spawned) \<Rightarrow>
        if acc \<ge> spawnInterval \<and> real (getLength chain) < maxBalls
        then (case spawnBall src chain path of (chain', ball) \<Rightarrow>
                spawnLoop src path maxBalls spawnInterval
                  (acc - spawnInterval, chain', if ball \<noteq> None then spawned + 1 else spawned))
        else Some (acc, chain, spawned))"

definition BallSpawner_update ::
  "BallSource \<Rightarrow> BallSpawner \<Rightarrow> real \<Rightarrow> Chain \<Rightarrow> Path \<Rightarrow> real
     \<Rightarrow> (BallSpawner \<times> Chain \<times> nat) option" where
  "BallSpawner_update src sp deltaTime chain path maxBalls =
     (let acc = accumulator sp + deltaTime
      in if spawnRate sp = 0 then Some (sp\<lparr>accumulator := acc\<rparr>, chain, 0)
         else (case spawnLoop src path maxBalls (1 / spawnRate sp) (acc, chain, 0) of
                 None \<Rightarrow> None
               | Some (acc', chain', spawned) \<Rightarrow> Some (sp\<lparr>accumulator := acc'\<rparr>, chain', spawned)))"

text \<open>The tail ball leaves less than \<open>2 * BALL_RADIUS\<close> of room at the spawn point.\<close>

definition tailTooClose :: "Chain \<Rightarrow> Path \<Rightarrow> bool" where
  "tailTooClose chain path =
     (case tail chain of
        None \<Rightarrow> False
      | Some t \<Rightarrow> totalLength path - distanceAlongPath t < 2 * BALL_RADIUS)"

text \<open>\<open>spawnInitialBalls\<close>, with its loop over the remaining count and \<open>currentDistance\<close>.\<close>

fun spawnInitialLoop :: "BallSource \<Rightarrow> nat \<Rightarrow> real \<Rightarrow> Chain \<Rightarrow> Chain" where
  "spawnInitialLoop src 0 currentDistance chain = chain"
| "spawnInitialLoop src (Suc k) currentDistance chain =
     (let (i, col) = src (balls chain);
          ball = new_Ball i col currentDistance;
          chain' = (case tail chain of
                      Some t \<Rightarrow> insertBall chain ball (Some t)
                    | None \<Rightarrow> insertBall chain ball None)
      in spawnInitialLoop src k (currentDistance - BALL_RADIUS * 2) chain')"

definition spawnInitialBalls :: "BallSource \<Rightarrow> Chain \<Rightarrow> Path \<Rightarrow> nat \<Rightarrow> Chain" where
  "spawnInitialBalls src chain path cnt = spawnInitialLoop src cnt (totalLength path) chain"

section \<open>Game (main.ts)\<close>

text \<open>
  The part of \<open>updateFiredBalls\<close> and \<open>checkAndProcessMatch\<close> that acts on the chain.
  \<open>updateFiredBall\<close> is the body of the loop over the fired balls: it returns the chain,
  the ball, and whether the ball leaves the list of fired balls. Effects, sound and the
  score are not part of it.
\<close>

definition CANVAS_WIDTH :: real where
  "CANVAS_WIDTH = 800"

definition CANVAS_HEIGHT :: real where
  "CANVAS_HEIGHT = 600"

definition checkAndProcessMatch :: "Chain \<Rightarrow> Ball \<Rightarrow> Chain" where
  "checkAndProcessMatch chain insertedBall =
     (case findMatch (balls chain) insertedBall of
        Some m \<Rightarrow> fst (removeBalls chain (match_balls m))
      | None \<Rightarrow> chain)"

definition updateFiredBall ::
  "(real \<Rightarrow> Point) \<Rightarrow> (real \<Rightarrow> Point) \<Rightarrow> real \<Rightarrow> Chain \<Rightarrow> Ball \<Rightarrow> Chain \<times> Ball \<times> bool" where
  "updateFiredBall getPointAtDistance getTangentAtDistance deltaTime chain ball0 =
     (let ball = updatePosition ball0 deltaTime
      in if isOffScreen ball CANVAS_WIDTH CANVAS_HEIGHT 50 then (chain, ball, True)
         else case checkBallChainCollision ball chain getPointAtDistance getTangentAtDistance of
                None \<Rightarrow> (chain, ball, False)
              | Some collision \<Rightarrow>
                  (let ball = markInserted (ball\<lparr>distanceAlongPath := insertionDistance collision\<rparr>);
                       chain' = (if insertBefore collision
                                 then insertBall chain ball
                                        (prevOf (balls chain) (collidedWith collision))
                                 else insertBall chain ball (Some (collidedWith collision)))
                   in (checkAndProcessMatch chain' ball, ball, True)))"

fun updateFiredBalls ::
  "(real \<Rightarrow> Point) \<Rightarrow> (real \<Rightarrow> Point) \<Rightarrow> real \<Rightarrow> Chain \<Rightarrow> Ball list \<Rightarrow> Chain \<times> Ball list" where
  "updateFiredBalls gp gt deltaTime chain [] = (chain, [])"
| "updateFiredBalls gp gt deltaTime chain (ball # rest) =
     (case updateFiredBall gp gt deltaTime chain ball of
        (chain', ball', remove) \<Rightarrow>
          (case updateFiredBalls gp gt deltaTime chain' rest of
             (chain'', kept) \<Rightarrow> (chain'', if remove then kept else ball' # kept)))"

section \<open>Examples\<close>

text \<open>
  Five balls at the minimum spacing with a run of three red ones in the middle, and the
  chain left when that run has been removed and the gap is closing.
\<close>

definition exampleChain :: Chain where
  "exampleChain = new_Chain\<lparr>balls := [new_Ball ''a'' GREEN 100, new_Ball ''b'' RED 132,
                new_Ball ''c'' RED 164, new_Ball ''d'' RED 196, new_Ball ''e'' BLUE 228]\<rparr>"

definition exampleGapChain :: Chain where
  "exampleGapChain = \<lparr>balls = [new_Ball ''a'' GREEN 100, new_Ball ''e'' BLUE 228,
                                 new_Ball ''f'' RED 300],
                       velocity = 50, splitPoint = Some 132, backVelocity = - 400,
                       isClosingGap = True\<rparr>"

text \<open>
  A straight track of length 300 from the hole at \<open>(395, 115)\<close> to the spawn point at
  \<open>(695, 115)\<close>, given by four control points in a line, with its two path queries; a
  spawner with one ball per second; and a ball fired from the centre of the canvas,
  \<open>(400, 300)\<close>, in the direction \<open>(3/5, - 4/5)\<close> at 800 pixels per second, as it is
  after 19 ticks of \<open>1/80\<close> second. One more tick brings it to \<open>(520, 140)\<close>, within
  reach of the ball at distance 132 and on its hole side.
\<close>

definition straightPoints :: "Point list" where
  "straightPoints = [\<lparr>pt_x = 395, pt_y = 115\<rparr>, \<lparr>pt_x = 495, pt_y = 115\<rparr>,
                     \<lparr>pt_x = 595, pt_y = 115\<rparr>, \<lparr>pt_x = 695, pt_y = 115\<rparr>]"

definition examplePath :: Path where
  "examplePath = \<lparr>path_id = ''straight'',
                   controlPoints = straightPoints,
                   totalLength = 300,
                   holePosition = \<lparr>pt_x = 395, pt_y = 115\<rparr>,
                   spawnPosition = \<lparr>pt_x = 695, pt_y = 115\<rparr>,
                   arcLengthTable = map (\<lambda>i. 6 * real i) [0..<51]\<rparr>"

definition straightPoint :: "real \<Rightarrow> Point" where
  "straightPoint d = \<lparr>pt_x = 395 + d, pt_y = 115\<rparr>"

definition straightTangent :: "real \<Rightarrow> Point" where
  "straightTangent d = \<lparr>pt_x = 1, pt_y = 0\<rparr>"

definition firedBall :: Ball where
  "firedBall = \<lparr>ball_id = ''s'', color = YELLOW, distanceAlongPath = 0, ball_state = NORMAL,
                ball_x = 514, ball_y = 148, velocityX = 480, velocityY = - 640\<rparr>"

definition exampleSource :: BallSource where
  "exampleSource bs = (''n'', RED)"

definition exampleSpawner :: BallSpawner where
  "exampleSpawner = \<lparr>spawnColors = [RED, BLUE, GREEN, YELLOW], spawnRate = 1, accumulator = 0\<rparr>"

definition oneBallChain :: Chain where
  "oneBallChain = new_Chain\<lparr>balls := [new_Ball ''a'' GREEN 100]\<rparr>"

definition blockedChain :: Chain where
  "blockedChain = new_Chain\<lparr>balls := [new_Ball ''a'' GREEN 290]\<rparr>"

text \<open>
  The chain that \<open>spawnInitialBalls\<close> builds on the example track from four balls, the
  first three of them red.
\<close>

definition initialSource :: BallSource where
  "initialSource bs =
     (if length bs = 0 then (''a'', RED)
      else if length bs = 1 then (''b'', RED)
      else if length bs = 2 then (''c'', RED)
      else (''d'', BLUE))"

definition initialChain :: Chain where
  "initialChain = spawnInitialBalls initialSource new_Chain examplePath 4"

section \<open>Shooter swap\<close>

text \<open>
  C10. One call of \<open>swap\<close> exchanges \<open>currentBall\<close> and \<open>reserveBall\<close> and leaves rotation,
  cooldown, position (and the palette) as they were; two calls in a row give back the
  shooter that was there before.
\<close>

theorem swap_involution:
  "currentBall (swap s) = reserveBall s \<and> reserveBall (swap s) = currentBall s
   \<and> rotation (swap s) = rotation s \<and> cooldown (swap s) = cooldown s
   \<and> position (swap s) = position s \<and> availableColors (swap s) = availableColors s
   \<and> swap (swap s) = s"
  by (simp add: swap_def)

section \<open>Run scoring\<close>

text \<open>
  C4. For a run of \<open>n \<ge> 3\<close> balls and a chain multiplier \<open>m \<ge> 1\<close>, \<open>addMatchPoints\<close> adds
  \<open>spec_base_points n * m\<close> to the current-level score and returns that number; the base is
  100 for 3, 150 for 4 and \<open>200 + 50 * (n - 5)\<close> from 5 on, so a run of 5 gives 200 and a
  run of 7 gives 300 at multiplier 1. Nothing else of the score object changes.
\<close>

theorem addMatchPoints_tiers:
  assumes "3 \<le> n" and "1 \<le> chainMultiplier sc"
  shows "snd (addMatchPoints sc n) = spec_base_points n * chainMultiplier sc
         \<and> fst (addMatchPoints sc n) = sc\<lparr>current := current sc + spec_base_points n * chainMultiplier sc\<rparr>
         \<and> spec_base_points 3 = 100 \<and> spec_base_points 4 = 150 \<and> spec_base_points 5 = 200
         \<and> spec_base_points 7 = 300
         \<and> (5 \<le> n \<longrightarrow> spec_base_points n = 200 + 50 * (n - 5))"
  using assms by (simp add: addMatchPoints_def spec_base_points_def Let_def)

theorem addMatchPoints_tiers_witness:
  "snd (addMatchPoints \<lparr>current = 40, total_points = 0, chainMultiplier = 2, highScore = 0\<rparr> 3) = 200
   \<and> current (fst (addMatchPoints
         \<lparr>current = 40, total_points = 0, chainMultiplier = 2, highScore = 0\<rparr> 3)) = 240
   \<and> snd (addMatchPoints \<lparr>current = 0, total_points = 0, chainMultiplier = 1, highScore = 0\<rparr> 7) = 300"
proof -
  have h3: "(3::int) \<le> 3" and h7: "(3::int) \<le> 7" by simp_all
  have m2: "1 \<le> chainMultiplier
              \<lparr>current = 40, total_points = 0, chainMultiplier = 2, highScore = 0\<rparr>" by simp
  have m1: "1 \<le> chainMultiplier
              \<lparr>current = 0, total_points = 0, chainMultiplier = 1, highScore = 0\<rparr>" by simp
  from addMatchPoints_tiers [OF h3 m2] addMatchPoints_tiers [OF h7 m1] show ?thesis
    by (simp add: spec_base_points_def)
qed

section \<open>Reaching the hole\<close>

lemma balls_updateNormalMovement:
  "balls (updateNormalMovement c dt) =
     map (\<lambda>b. b\<lparr>distanceAlongPath := distanceAlongPath b - velocity c * dt\<rparr>) (balls c)"
  by (simp add: updateNormalMovement_def Let_def)

lemma velocity_updateNormalMovement:
  "velocity (updateNormalMovement c dt) = velocity c"
  by (simp add: updateNormalMovement_def Let_def)

lemma balls_foldl_updateNormalMovement:
  "balls (foldl updateNormalMovement c dts) =
     map (\<lambda>b. b\<lparr>distanceAlongPath := distanceAlongPath b - velocity c * sum_list dts\<rparr>) (balls c)"
proof (induction dts arbitrary: c)
  case Nil
  show ?case by simp
next
  case (Cons dt dts)
  show ?case
    by (simp add: Cons.IH balls_updateNormalMovement velocity_updateNormalMovement
                  o_def algebra_simps)
qed

lemma foldl_Chain_update_flowing:
  "\<not> isClosingGap c \<Longrightarrow> foldl Chain_update c dts = foldl updateNormalMovement c dts"
proof (induction dts arbitrary: c)
  case Nil
  show ?case by simp
next
  case (Cons dt dts)
  have n: "\<not> isClosingGap (updateNormalMovement c dt)"
    using Cons.prems by (simp add: updateNormalMovement_def Let_def)
  have "Chain_update c dt = updateNormalMovement c dt"
    using Cons.prems by (simp add: Chain_update_def)
  then show ?case using Cons.IH [OF n] by simp
qed

lemma checkHoleCollision_balls:
  "checkHoleCollision c \<longleftrightarrow> (balls c \<noteq> [] \<and> distanceAlongPath (hd (balls c)) \<le> 0)"
  by (cases "balls c") (simp_all add: checkHoleCollision_def isEmpty_def getFrontBall_def head_def)

text \<open>
  C8. \<open>checkHoleCollision\<close> is true exactly when the chain is non-empty and its head ball
  is at distance \<open>\<le> 0\<close>. After any number of normal advance steps with time steps \<open>dts\<close>
  the head ball is at its first distance minus \<open>velocity * sum dts\<close>, so along repeated
  advances the check is true at a step exactly when the head distance at that step is
  \<open>\<le> 0\<close>: it is false at every step before the first such one and true at that one.
\<close>

theorem checkHoleCollision_iff_head_reached:
  "(checkHoleCollision c \<longleftrightarrow> (balls c \<noteq> [] \<and> distanceAlongPath (hd (balls c)) \<le> 0))
   \<and> (checkHoleCollision (foldl updateNormalMovement c dts) \<longleftrightarrow>
        (balls c \<noteq> [] \<and> distanceAlongPath (hd (balls c)) - velocity c * sum_list dts \<le> 0))"
proof
  show "checkHoleCollision c \<longleftrightarrow> (balls c \<noteq> [] \<and> distanceAlongPath (hd (balls c)) \<le> 0)"
    by (rule checkHoleCollision_balls)
  show "checkHoleCollision (foldl updateNormalMovement c dts) \<longleftrightarrow>
        (balls c \<noteq> [] \<and> distanceAlongPath (hd (balls c)) - velocity c * sum_list dts \<le> 0)"
    by (cases "balls c")
       (simp_all add: checkHoleCollision_balls balls_foldl_updateNormalMovement)
qed

section \<open>Spacing after insertion\<close>

text \<open>
  Whatever the chain was, the inserted ball and the balls behind it end up in ascending
  order, each at least \<open>2 * BALL_RADIUS\<close> behind the one before it.
\<close>

lemma spacedAscending_pushBallsBack:
  "spacedAscending (b # pushBallsBack (distanceAlongPath b) xs)"
  by (induction xs arbitrary: b) (auto simp: Let_def BALL_RADIUS_def)

lemma spacedAscending_spaced: "spacedAscending xs \<Longrightarrow> spaced xs"
  by (induction xs rule: spaced.induct) (auto simp: BALL_RADIUS_def)

lemma insertBall_head_spacing: "spacedAscending (balls (insertBall c ball None))"
  by (simp add: insertBall_def spacedAscending_pushBallsBack)

lemma insertAfter_tailward_spacing:
  "ball_id a \<in> ball_id ` set xs \<Longrightarrow>
   \<exists>pre post. insertAfter ball a xs = pre @ ball # post \<and> pre = take (length pre) xs
              \<and> spacedAscending (ball # post)"
proof (induction xs)
  case Nil
  then show ?case by simp
next
  case (Cons x xs)
  show ?case
  proof (cases "ball_id x = ball_id a")
    case True
    have "insertAfter ball a (x # xs) = [x] @ ball # pushBallsBack (distanceAlongPath ball) xs"
      using True by simp
    moreover have "[x] = take (length [x]) (x # xs)" by simp
    ultimately show ?thesis using spacedAscending_pushBallsBack by blast
  next
    case False
    with Cons.prems have "ball_id a \<in> ball_id ` set xs" by auto
    from Cons.IH [OF this] obtain pre post
      where "insertAfter ball a xs = pre @ ball # post" "pre = take (length pre) xs"
        "spacedAscending (ball # post)" by blast
    then have "insertAfter ball a (x # xs) = (x # pre) @ ball # post
               \<and> x # pre = take (length (x # pre)) (x # xs) \<and> spacedAscending (ball # post)"
      using False by simp
    then show ?thesis by blast
  qed
qed

lemma spaced_insertAfter:
  assumes "spaced xs"
    and "case find (\<lambda>b. ball_id b = ball_id a) xs of None \<Rightarrow> True
         | Some r \<Rightarrow> \<bar>distanceAlongPath ball - distanceAlongPath r\<bar> \<ge> 2 * BALL_RADIUS"
  shows "spaced (insertAfter ball a xs)"
  using assms
proof (induction xs rule: spaced.induct)
  case 1
  show ?case by simp
next
  case (2 b)
  then show ?case by (auto simp: Let_def)
next
  case (3 x y ys)
  show ?case
  proof (cases "ball_id x = ball_id a")
    case True
    have "spaced (ball # pushBallsBack (distanceAlongPath ball) (y # ys))"
      by (rule spacedAscending_spaced [OF spacedAscending_pushBallsBack])
    with True 3 show ?thesis by simp
  next
    case False
    with 3 have ih: "spaced (insertAfter ball a (y # ys))" by simp
    from 3 have "\<bar>distanceAlongPath y - distanceAlongPath x\<bar> \<ge> 2 * BALL_RADIUS" by simp
    with False ih show ?thesis by (cases "ball_id y = ball_id a") simp_all
  qed
qed

lemma spaced_insertBall:
  "spaced (balls c) \<Longrightarrow> placedApart c ball afterBall \<Longrightarrow> spaced (balls (insertBall c ball afterBall))"
  by (cases afterBall)
     (simp_all add: insertBall_def placedApart_def spaced_insertAfter
                    spacedAscending_spaced [OF spacedAscending_pushBallsBack])

text \<open>
  C1, as amended. \<open>insertBall\<close> pushes only the balls behind the inserted one and never
  places the inserted ball relative to the ball before it. If every two neighbours of the
  chain are at least \<open>2 * BALL_RADIUS\<close> apart, then after any sequence of insertions,
  each at the head or after a chain ball whose distance differs from the new ball's by at
  least \<open>2 * BALL_RADIUS\<close>, every two neighbours are at least \<open>2 * BALL_RADIUS\<close> apart.
\<close>

theorem insertBall_keeps_spacing:
  assumes "spaced (balls c)" and "allPlacedApart c ins"
  shows "spaced (balls (insertAll c ins))"
  using assms
proof (induction ins arbitrary: c)
  case Nil
  then show ?case by simp
next
  case (Cons p ins)
  obtain ball afterBall where p: "p = (ball, afterBall)" by (cases p)
  from Cons.prems have "spaced (balls (insertBall c ball afterBall))"
    by (simp add: p spaced_insertBall)
  moreover from Cons.prems have "allPlacedApart (insertBall c ball afterBall) ins"
    by (simp add: p)
  ultimately show ?case by (simp add: p Cons.IH)
qed

theorem insertBall_keeps_spacing_witness:
  "spaced (balls (insertAll new_Chain [(new_Ball ''a'' RED 100, None),
        (new_Ball ''b'' BLUE 90, None), (new_Ball ''c'' BLUE 160, Some (new_Ball ''a'' RED 100))]))"
proof -
  have h1: "spaced (balls new_Chain)" by (simp add: new_Chain_def)
  have h2: "allPlacedApart new_Chain [(new_Ball ''a'' RED 100, None),
        (new_Ball ''b'' BLUE 90, None), (new_Ball ''c'' BLUE 160, Some (new_Ball ''a'' RED 100))]"
    by (simp add: insertBall_def new_Chain_def new_Ball_def BALL_RADIUS_def placedApart_def)
  from insertBall_keeps_spacing [OF h1 h2] show ?thesis .
qed

text \<open>
  C1 as stated fails: into the empty chain, insert a ball at distance 100 at the head
  and then a ball at distance 110 after it. Nothing is behind the second ball, so nothing
  is pushed, and the two neighbours are 10 apart.
\<close>

theorem insertBall_spacing_counterexample:
  "\<not> spaced (balls (insertAll new_Chain [(new_Ball ''a'' RED 100, None),
        (new_Ball ''b'' BLUE 110, Some (new_Ball ''a'' RED 100))]))"
  by (simp add: insertBall_def new_Chain_def new_Ball_def BALL_RADIUS_def)

section \<open>Closing a gap\<close>

lemma repackFrom_length [simp]: "length (repackFrom p xs) = length xs"
  by (induction xs arbitrary: p) (simp_all add: Let_def)

lemma repackFrom_nth:
  "k < length xs \<Longrightarrow>
   distanceAlongPath (repackFrom p xs ! k) = p + 2 * BALL_RADIUS * (real k + 1)"
proof (induction xs arbitrary: p k)
  case Nil
  then show ?case by simp
next
  case (Cons x xs)
  show ?case
  proof (cases k)
    case 0
    then show ?thesis by (simp add: Let_def)
  next
    case (Suc j)
    with Cons.prems have "j < length xs" by simp
    from Cons.IH [OF this, of "p + BALL_RADIUS * 2"] Suc show ?thesis
      by (simp add: Let_def algebra_simps)
  qed
qed

lemma repackFrom_ids: "map ball_id (repackFrom p xs) = map ball_id xs"
  by (induction xs arbitrary: p) (simp_all add: Let_def)

lemma repackFrom_colors: "map color (repackFrom p xs) = map color xs"
  by (induction xs arbitrary: p) (simp_all add: Let_def)

lemma spacedAscending_repackFrom:
  "spacedAscending (b # repackFrom (distanceAlongPath b) xs)"
proof (induction xs arbitrary: b)
  case Nil
  show ?case by simp
next
  case (Cons a xs)
  from Cons [of "a\<lparr>distanceAlongPath := distanceAlongPath b + BALL_RADIUS * 2\<rparr>"]
  show ?case by (simp add: Let_def)
qed

lemma updateGapClosing_snap:
  assumes sp: "splitPoint c = Some sp"
    and bs: "balls c = front @ backStart # rest"
    and fr: "\<forall>b\<in>set front. distanceAlongPath b < sp"
    and bk: "sp \<le> distanceAlongPath backStart"
    and ne: "front \<noteq> []"
    and gap: "distanceAlongPath backStart + backVelocity c * dt
                - distanceAlongPath (last front) \<le> 2 * BALL_RADIUS"
  shows "updateGapClosing c dt =
           c\<lparr>balls := front
                @ backStart\<lparr>distanceAlongPath := distanceAlongPath (last front) + 2 * BALL_RADIUS\<rparr>
                # repackFrom (distanceAlongPath (last front) + 2 * BALL_RADIUS) 
                    (map (\<lambda>b. b\<lparr>distanceAlongPath := distanceAlongPath b + backVelocity c * dt\<rparr>) rest),
              splitPoint := None, backVelocity := 0, isClosingGap := False\<rparr>"
proof -
  have tw: "takeWhile (\<lambda>b. \<not> distanceAlongPath b \<ge> sp) (balls c) = front"
    using fr bk by (simp add: bs takeWhile_append2 not_le)
  have dw: "dropWhile (\<lambda>b. \<not> distanceAlongPath b \<ge> sp) (balls c) = backStart # rest"
    using fr bk by (simp add: bs dropWhile_append2 not_le)
  show ?thesis
    using ne gap by (simp add: updateGapClosing_def sp tw dw Let_def snapGapClosed_def mult.commute)
qed

text \<open>
  C6. While a gap is closing (\<open>isClosingGap\<close> is set and the split point is \<open>sp\<close>), let
  \<open>backStart\<close> be the first ball at or beyond the split point and let it have balls before
  it. If the step of \<open>Chain.update\<close> leaves \<open>backStart\<close> at most \<open>2 * BALL_RADIUS\<close> behind
  the ball before it, the step ends the manoeuvre: the balls before the gap are
  untouched, \<open>backStart\<close> is at exactly the front ball's distance plus \<open>2 * BALL_RADIUS\<close>,
  the \<open>k\<close>-th ball behind it is a further \<open>k * 2 * BALL_RADIUS\<close> on, so from the front ball
  to the tail the spacing holds, no ball is lost or recoloured, and \<open>isGapClosing\<close> is
  false afterwards.
\<close>

theorem gap_closing_snap:
  assumes "isClosingGap c"
    and "splitPoint c = Some sp"
    and "balls c = front @ backStart # rest"
    and "\<forall>b\<in>set front. distanceAlongPath b < sp"
    and "sp \<le> distanceAlongPath backStart"
    and "front \<noteq> []"
    and "distanceAlongPath backStart + backVelocity c * dt
           - distanceAlongPath (last front) \<le> 2 * BALL_RADIUS"
  shows "take (length front) (balls (Chain_update c dt)) = front
         \<and> length (balls (Chain_update c dt)) = length (balls c)
         \<and> (\<forall>k \<le> length rest.
               distanceAlongPath (balls (Chain_update c dt) ! (length front + k)) =
                 distanceAlongPath (last front) + 2 * BALL_RADIUS * (real k + 1))
         \<and> spacedAscending (drop (length front - 1) (balls (Chain_update c dt)))
         \<and> map ball_id (balls (Chain_update c dt)) = map ball_id (balls c)
         \<and> map color (balls (Chain_update c dt)) = map color (balls c)
         \<and> \<not> isGapClosing (Chain_update c dt)
         \<and> splitPoint (Chain_update c dt) = None \<and> backVelocity (Chain_update c dt) = 0"
proof -
  define d where "d = distanceAlongPath (last front) + 2 * BALL_RADIUS"
  define rest' where
    "rest' = map (\<lambda>b. b\<lparr>distanceAlongPath := distanceAlongPath b + backVelocity c * dt\<rparr>) rest"
  have u: "Chain_update c dt =
             c\<lparr>balls := front @ backStart\<lparr>distanceAlongPath := d\<rparr> # repackFrom d rest',
               splitPoint := None, backVelocity := 0, isClosingGap := False\<rparr>"
    using assms by (simp add: Chain_update_def updateGapClosing_snap d_def rest'_def)
  have len: "length rest' = length rest" by (simp add: rest'_def)
  have nth: "distanceAlongPath (balls (Chain_update c dt) ! (length front + k)) =
               distanceAlongPath (last front) + 2 * BALL_RADIUS * (real k + 1)"
    if "k \<le> length rest" for k
  proof (cases k)
    case 0
    then show ?thesis by (simp add: u nth_append d_def)
  next
    case (Suc j)
    with that have "j < length rest'" by (simp add: len)
    from repackFrom_nth [OF this, of d] Suc show ?thesis
      by (simp add: u nth_append d_def algebra_simps)
  qed
  have dr: "drop (length front - 1) (front @ ys) = last front # ys" for ys :: "Ball list"
  proof -
    have "front = butlast front @ [last front]" using \<open>front \<noteq> []\<close> by simp
    then have "drop (length front - 1) (front @ ys) =
                 drop (length (butlast front)) (butlast front @ ([last front] @ ys))"
      by (metis append_assoc length_butlast)
    then show ?thesis by simp
  qed
  have "balls (Chain_update c dt) = front @ backStart\<lparr>distanceAlongPath := d\<rparr> # repackFrom d rest'"
    by (simp add: u)
  then have "drop (length front - 1) (balls (Chain_update c dt)) =
               last front # backStart\<lparr>distanceAlongPath := d\<rparr> # repackFrom d rest'"
    by (simp only: dr)
  then have sp: "spacedAscending (drop (length front - 1) (balls (Chain_update c dt)))"
    using spacedAscending_repackFrom [of "backStart\<lparr>distanceAlongPath := d\<rparr>" rest']
    by (simp add: d_def)
  have ids: "map ball_id (balls (Chain_update c dt)) = map ball_id (balls c)"
    using assms(3) by (simp add: u repackFrom_ids rest'_def o_def)
  have cols: "map color (balls (Chain_update c dt)) = map color (balls c)"
    using assms(3) by (simp add: u repackFrom_colors rest'_def o_def)
  show ?thesis
    using nth sp ids cols assms(3) by (simp add: u isGapClosing_def len)
qed

theorem gap_closing_snap_witness:
  "map distanceAlongPath (balls (Chain_update exampleGapChain (1/4))) = [100, 132, 164]
   \<and> \<not> isGapClosing (Chain_update exampleGapChain (1/4))"
proof -
  have h1: "isClosingGap exampleGapChain" by (simp add: exampleGapChain_def)
  have h2: "splitPoint exampleGapChain = Some 132" by (simp add: exampleGapChain_def)
  have h3: "balls exampleGapChain =
              [new_Ball ''a'' GREEN 100] @ new_Ball ''e'' BLUE 228 # [new_Ball ''f'' RED 300]"
    by (simp add: exampleGapChain_def)
  have h4: "\<forall>b\<in>set [new_Ball ''a'' GREEN 100]. distanceAlongPath b < 132"
    by (simp add: new_Ball_def)
  have h5: "132 \<le> distanceAlongPath (new_Ball ''e'' BLUE 228)" by (simp add: new_Ball_def)
  have h6: "[new_Ball ''a'' GREEN 100] \<noteq> []" by simp
  have h7: "distanceAlongPath (new_Ball ''e'' BLUE 228) + backVelocity exampleGapChain * (1/4)
              - distanceAlongPath (last [new_Ball ''a'' GREEN 100]) \<le> 2 * BALL_RADIUS"
    by (simp add: new_Ball_def exampleGapChain_def BALL_RADIUS_def)
  from gap_closing_snap [OF h1 h2 h3 h4 h5 h6 h7] show ?thesis
    by (simp add: Chain_update_def updateGapClosing_def snapGapClosed_def exampleGapChain_def
                  new_Ball_def BALL_RADIUS_def isGapClosing_def Let_def)
qed

section \<open>Finding a match\<close>

lemma scanBackward_takeWhile:
  "scanBackward col ys m = rev (takeWhile (\<lambda>b. color b = col) ys) @ m"
  by (induction ys arbitrary: m) simp_all

lemma scanForward_takeWhile:
  "scanForward col ys m = m @ takeWhile (\<lambda>b. color b = col) ys"
  by (induction ys arbitrary: m) simp_all

lemma rev_dropWhile_takeWhile: "rev (dropWhile P ys) @ rev (takeWhile P ys) = rev ys"
  by (metis rev_append takeWhile_dropWhile_id)

lemma resident_split:
  assumes "distinct (map ball_id xs)" and "xs = pre @ s # post"
  shows "ballsBefore xs s = rev pre" and "ballsBehind xs s = post"
proof -
  from assms have "ball_id s \<notin> ball_id ` set pre" by auto
  then have ne: "\<forall>b\<in>set pre. ball_id b \<noteq> ball_id s" by (metis imageI)
  then have tw: "takeWhile (\<lambda>b. ball_id b \<noteq> ball_id s) xs = pre"
    by (simp add: assms(2) takeWhile_append2)
  from ne have dw: "dropWhile (\<lambda>b. ball_id b \<noteq> ball_id s) xs = s # post"
    by (simp add: assms(2) dropWhile_append2)
  have "ball_id s \<in> ball_id ` set xs" by (simp add: assms(2))
  then show "ballsBefore xs s = rev pre" by (simp add: ballsBefore_def tw)
  show "ballsBehind xs s = post" by (simp add: ballsBehind_def dw)
qed

lemma findMatch_result_length:
  "findMatch xs s = Some m \<Longrightarrow> 3 \<le> length (match_balls m)"
  by (auto simp: findMatch_def Let_def split: if_splits)

lemma findMatch_run:
  assumes d: "distinct (map ball_id xs)" and xs: "xs = pre @ s # post"
  defines "run \<equiv> rev (takeWhile (\<lambda>b. color b = color s) (rev pre)) @ s
                    # takeWhile (\<lambda>b. color b = color s) post"
  shows "findMatch xs s =
           (if 3 \<le> length run then Some \<lparr>match_balls = run, match_color = color s\<rparr> else None)"
  using resident_split [OF d xs]
  by (simp add: findMatch_def Let_def scanBackward_takeWhile scanForward_takeWhile run_def)

text \<open>
  C7. For a start ball in a chain of distinct ball objects, \<open>findMatch\<close> looks at the
  unbroken run of balls of the start ball's colour around it: the run contains the start ball, is of one colour,
  and the chain balls next to it on either side, where there are any, are of another
  colour. \<open>findMatch\<close> returns this run if it has at least 3 balls and nothing otherwise.
  So a result never has fewer than 3 balls, and in a chain of two balls nothing matches.
\<close>

theorem findMatch_maximal_run:
  assumes "distinct (map ball_id chainBalls)" and "startBall \<in> set chainBalls"
  shows "\<exists>l run r.
           chainBalls = l @ run @ r \<and> startBall \<in> set run
           \<and> (\<forall>b\<in>set run. color b = color startBall)
           \<and> (l = [] \<or> color (last l) \<noteq> color startBall)
           \<and> (r = [] \<or> color (hd r) \<noteq> color startBall)
           \<and> findMatch chainBalls startBall =
                (if 3 \<le> length run
                 then Some \<lparr>match_balls = run, match_color = color startBall\<rparr> else None)
           \<and> (\<forall>m. findMatch chainBalls startBall = Some m \<longrightarrow> 3 \<le> length (match_balls m))
           \<and> (length chainBalls = 2 \<longrightarrow> findMatch chainBalls startBall = None)"
proof -
  let ?P = "\<lambda>b. color b = color startBall"
  from assms(2) obtain pre post where xs: "chainBalls = pre @ startBall # post"
    by (auto dest: split_list)
  define l where "l = rev (dropWhile ?P (rev pre))"
  define r where "r = dropWhile ?P post"
  define run where "run = rev (takeWhile ?P (rev pre)) @ startBall # takeWhile ?P post"
  have "l @ run @ r =
          (rev (dropWhile ?P (rev pre)) @ rev (takeWhile ?P (rev pre)))
            @ startBall # (takeWhile ?P post @ dropWhile ?P post)"
    by (simp add: l_def run_def r_def)
  also have "\<dots> = rev (rev pre) @ startBall # post"
    by (simp only: rev_dropWhile_takeWhile takeWhile_dropWhile_id)
  finally have "l @ run @ r = pre @ startBall # post" by simp
  then have dec: "chainBalls = l @ run @ r" by (simp only: xs)
  have inrun: "startBall \<in> set run" by (simp add: run_def)
  have cols: "\<forall>b\<in>set run. color b = color startBall"
    by (auto simp: run_def dest: set_takeWhileD)
  have lend: "l = [] \<or> color (last l) \<noteq> color startBall"
  proof (cases "dropWhile ?P (rev pre)")
    case Nil
    then show ?thesis by (simp add: l_def)
  next
    case (Cons y ys)
    then have "\<not> ?P y" using hd_dropWhile [of ?P "rev pre"] by simp
    with Cons show ?thesis by (simp add: l_def)
  qed
  have rend: "r = [] \<or> color (hd r) \<noteq> color startBall"
    using hd_dropWhile [of ?P post] by (auto simp: r_def)
  have fm: "findMatch chainBalls startBall =
              (if 3 \<le> length run
               then Some \<lparr>match_balls = run, match_color = color startBall\<rparr> else None)"
    using findMatch_run [OF assms(1) xs] by (simp add: run_def)
  have two: "length chainBalls = 2 \<longrightarrow> findMatch chainBalls startBall = None"
  proof
    assume "length chainBalls = 2"
    then have "length (l @ run @ r) = 2" by (simp only: dec [symmetric])
    then have "length run \<le> 2" by simp
    with fm show "findMatch chainBalls startBall = None" by simp
  qed
  have three: "\<forall>m. findMatch chainBalls startBall = Some m \<longrightarrow> 3 \<le> length (match_balls m)"
    by (blast dest: findMatch_result_length)
  show ?thesis
    apply (rule exI [of _ l], rule exI [of _ run], rule exI [of _ r])
    apply (rule conjI, rule dec)
    apply (rule conjI, rule inrun)
    apply (rule conjI, rule cols)
    apply (rule conjI, rule lend)
    apply (rule conjI, rule rend)
    apply (rule conjI, rule fm)
    apply (rule conjI, rule three)
    apply (rule two)
    done
qed

theorem findMatch_maximal_run_witness:
  "findMatch (balls exampleChain) (new_Ball ''c'' RED 164) =
     Some \<lparr>match_balls = [new_Ball ''b'' RED 132, new_Ball ''c'' RED 164, new_Ball ''d'' RED 196],
           match_color = RED\<rparr>"
proof -
  have h1: "distinct (map ball_id (balls exampleChain))"
    by (simp add: exampleChain_def new_Chain_def new_Ball_def)
  have h2: "new_Ball ''c'' RED 164 \<in> set (balls exampleChain)"
    by (simp add: exampleChain_def new_Chain_def)
  from findMatch_maximal_run [OF h1 h2] show ?thesis
    by (simp add: findMatch_def ballsBefore_def ballsBehind_def exampleChain_def new_Chain_def
                  new_Ball_def Let_def)
qed

section \<open>Removing a batch\<close>

lemma ascending_sorted_wrt:
  "ascending xs \<longleftrightarrow> sorted_wrt (<) (map distanceAlongPath xs)"
proof (induction xs rule: ascending.induct)
  case (3 a b bs)
  then show ?case by (auto simp: less_trans)
qed simp_all

lemma ascending_inj: "ascending xs \<Longrightarrow> inj_on distanceAlongPath (set xs)"
  by (simp add: ascending_sorted_wrt strict_sorted_iff distinct_map)

lemma ascending_distinct: "ascending xs \<Longrightarrow> distinct xs"
  by (simp add: ascending_sorted_wrt strict_sorted_iff distinct_map)

lemma ascending_filter: "ascending xs \<Longrightarrow> ascending (filter P xs)"
proof -
  assume "ascending xs"
  then have "sorted_wrt (\<lambda>a b. distanceAlongPath a < distanceAlongPath b) xs"
    by (simp add: ascending_sorted_wrt sorted_wrt_map)
  then have "sorted_wrt (\<lambda>a b. distanceAlongPath a < distanceAlongPath b) (filter P xs)"
    by (rule sorted_wrt_filter)
  then show ?thesis by (simp add: ascending_sorted_wrt sorted_wrt_map)
qed

lemma ascending_sorted: "ascending xs \<Longrightarrow> sorted (map distanceAlongPath xs)"
  by (simp add: ascending_sorted_wrt strict_sorted_iff)

lemma sort_removed_chain_order:
  assumes asc: "ascending (filter (\<lambda>b. b \<in> set bs) xs)"
    and d: "distinct bs" and sub: "set bs \<subseteq> set xs"
  shows "sort_key distanceAlongPath bs = filter (\<lambda>b. b \<in> set bs) xs"
proof (rule sort_key_inj_key_eq)
  have s: "set (filter (\<lambda>b. b \<in> set bs) xs) = set bs" using sub by auto
  have "distinct (filter (\<lambda>b. b \<in> set bs) xs)"
    using asc by (rule ascending_distinct)
  with s show "mset bs = mset (filter (\<lambda>b. b \<in> set bs) xs)"
    using d set_eq_iff_mset_eq_distinct [of bs "filter (\<lambda>b. b \<in> set bs) xs"] by blast
  show "inj_on distanceAlongPath (set bs)"
    using ascending_inj [OF asc] by (simp only: s)
  show "sorted (map distanceAlongPath (filter (\<lambda>b. b \<in> set bs) xs))"
    using asc by (rule ascending_sorted)
qed

lemma removeBall_resident:
  assumes "distinct (map ball_id (balls c))" and "y \<in> set (balls c)"
  shows "removeBall c y = c\<lparr>balls := filter (\<lambda>b. b \<noteq> y) (balls c)\<rparr>"
proof -
  have "filter (\<lambda>b. ball_id b \<noteq> ball_id y) (balls c) = filter (\<lambda>b. b \<noteq> y) (balls c)"
  proof (rule filter_cong [OF refl])
    fix b assume "b \<in> set (balls c)"
    with assms show "(ball_id b \<noteq> ball_id y) = (b \<noteq> y)"
      by (auto simp: distinct_map dest: inj_onD)
  qed
  moreover have "ball_id y \<in> ball_id ` set (balls c)" using assms(2) by simp
  ultimately show ?thesis by (simp add: removeBall_def)
qed

lemma foldl_removeBall:
  assumes "distinct (map ball_id (balls c))" and "distinct ys" and "set ys \<subseteq> set (balls c)"
  shows "foldl removeBall c ys = c\<lparr>balls := filter (\<lambda>b. b \<notin> set ys) (balls c)\<rparr>"
  using assms
proof (induction ys arbitrary: c)
  case Nil
  show ?case by simp
next
  case (Cons y ys)
  let ?c = "c\<lparr>balls := filter (\<lambda>b. b \<noteq> y) (balls c)\<rparr>"
  from Cons.prems have rb: "removeBall c y = ?c" by (simp add: removeBall_resident)
  have "distinct (map ball_id (balls ?c))"
    using Cons.prems(1) by (simp add: distinct_map_filter)
  moreover have "distinct ys" using Cons.prems(2) by simp
  moreover have "set ys \<subseteq> set (balls ?c)" using Cons.prems(2,3) by auto
  ultimately have "foldl removeBall ?c ys = ?c\<lparr>balls := filter (\<lambda>b. b \<notin> set ys) (balls ?c)\<rparr>"
    by (rule Cons.IH)
  then show ?case by (simp add: rb conj_commute)
qed

lemma first_removed:
  assumes "bs \<noteq> []" and "set bs \<subseteq> set xs"
  obtains f rest where "xs = keptAhead xs bs @ f # rest" and "f \<in> set bs"
    and "hd (filter (\<lambda>b. b \<in> set bs) xs) = f"
    and "filter (\<lambda>b. b \<in> set bs) xs \<noteq> []"
proof -
  let ?P = "\<lambda>b. b \<notin> set bs"
  from assms obtain z where "z \<in> set xs" "\<not> ?P z" by (cases bs) auto
  then have "dropWhile ?P xs \<noteq> []" by (auto simp: dropWhile_eq_Nil_conv)
  then obtain f rest where dw: "dropWhile ?P xs = f # rest" by (cases "dropWhile ?P xs") auto
  then have f: "f \<in> set bs" using hd_dropWhile [of ?P xs] by auto
  have xs: "xs = takeWhile ?P xs @ f # rest"
    using takeWhile_dropWhile_id [of ?P xs] by (simp only: dw)
  have "filter (\<lambda>b. b \<in> set bs) (takeWhile ?P xs) = []"
    by (auto simp: filter_empty_conv dest: set_takeWhileD)
  then have "filter (\<lambda>b. b \<in> set bs) (takeWhile ?P xs @ f # rest)
               = f # filter (\<lambda>b. b \<in> set bs) rest"
    using f by simp
  then have fl: "filter (\<lambda>b. b \<in> set bs) xs = f # filter (\<lambda>b. b \<in> set bs) rest"
    using xs by simp
  show ?thesis
    by (rule that [of f rest]) (use xs f fl in \<open>simp_all add: keptAhead_def\<close>)
qed

lemma last_removed:
  assumes "bs \<noteq> []" and "set bs \<subseteq> set xs"
  obtains g ini where "xs = ini @ g # keptBehind xs bs" and "g \<in> set bs"
    and "last (filter (\<lambda>b. b \<in> set bs) xs) = g"
proof -
  from assms have "set bs \<subseteq> set (rev xs)" by simp
  from first_removed [OF assms(1) this]
  obtain f rest where r: "rev xs = keptAhead (rev xs) bs @ f # rest" and f: "f \<in> set bs"
    and h: "hd (filter (\<lambda>b. b \<in> set bs) (rev xs)) = f"
    and ne: "filter (\<lambda>b. b \<in> set bs) (rev xs) \<noteq> []"
    by blast
  from r have "rev (rev xs) = rev (keptAhead (rev xs) bs @ f # rest)" by (rule arg_cong)
  then have xs: "xs = rev rest @ f # keptBehind xs bs"
    by (simp add: keptBehind_def keptAhead_def)
  have "last (filter (\<lambda>b. b \<in> set bs) xs) = hd (rev (filter (\<lambda>b. b \<in> set bs) xs))"
    using ne by (simp add: hd_rev rev_filter [symmetric] del: rev_filter)
  also have "\<dots> = f" using h by (simp add: rev_filter)
  finally have "last (filter (\<lambda>b. b \<in> set bs) xs) = f" .
  with xs f show ?thesis by (rule that)
qed

lemma prevOf_first:
  assumes "distinct (map ball_id xs)" and "xs = pre @ f # rest"
  shows "prevOf xs f = (if pre = [] then None else Some (last pre))"
proof -
  have "ballsBefore xs f = rev pre" using assms by (rule resident_split(1))
  then show ?thesis
    by (cases "rev pre") (auto simp: prevOf_def last_rev [symmetric] simp del: last_rev)
qed

lemma nextOf_last:
  assumes "distinct (map ball_id xs)" and "xs = ini @ g # post"
  shows "nextOf xs g = (if post = [] then None else Some (hd post))"
proof -
  have "ballsBehind xs g = post" using assms by (rule resident_split(2))
  then show ?thesis by (cases post) (simp_all add: nextOf_def)
qed

text \<open>
  What \<open>removeBalls\<close> does where the chain is in order. In a chain of distinct ball
  objects, let the balls to remove be a non-empty array of distinct chain balls whose
  distances increase strictly in the order of the chain, as they do in every chain with
  the ordering of the data model (\<open>ascending_filter\<close>). Then \<open>removeBalls\<close> removes exactly
  these balls. It returns as \<open>frontBall\<close> the ball before the first removed one and as
  \<open>backBall\<close> the ball behind the last removed one, each null when the removed balls reach
  that end of the chain. When both exist the split point is the front ball's distance plus
  \<open>2 * BALL_RADIUS\<close>, the back velocity is \<open>- SNAP_BACK_SPEED\<close>, which is negative, and the
  gap is closing; otherwise the gap state is left as it was.
\<close>

lemma removeBalls_boundaries:
  assumes asc: "ascending (filter (\<lambda>b. b \<in> set bs) (balls c))" and ids: "distinct (map ball_id (balls c))"
    and ne: "bs \<noteq> []" and d: "distinct bs" and sub: "set bs \<subseteq> set (balls c)"
  shows "case removeBalls c bs of (c', frontBall, backBall) \<Rightarrow>
           balls c' = filter (\<lambda>b. b \<notin> set bs) (balls c)
         \<and> frontBall = (if keptAhead (balls c) bs = [] then None
                         else Some (last (keptAhead (balls c) bs)))
         \<and> backBall = (if keptBehind (balls c) bs = [] then None
                        else Some (hd (keptBehind (balls c) bs)))
         \<and> velocity c' = velocity c
         \<and> (if frontBall \<noteq> None \<and> backBall \<noteq> None
              then splitPoint c' =
                     Some (distanceAlongPath (last (keptAhead (balls c) bs)) + 2 * BALL_RADIUS)
                   \<and> backVelocity c' = - SNAP_BACK_SPEED \<and> backVelocity c' < 0
                   \<and> isGapClosing c'
              else splitPoint c' = splitPoint c \<and> backVelocity c' = backVelocity c
                   \<and> isGapClosing c' = isGapClosing c)"
proof -
  let ?xs = "balls c"
  let ?sorted = "sort_key distanceAlongPath bs"
  have so: "?sorted = filter (\<lambda>b. b \<in> set bs) ?xs"
    using asc d sub by (rule sort_removed_chain_order)
  from first_removed [OF ne sub] obtain f rest
    where xf: "?xs = keptAhead ?xs bs @ f # rest"
      and hf: "hd (filter (\<lambda>b. b \<in> set bs) ?xs) = f" by blast
  from last_removed [OF ne sub] obtain g ini
    where xg: "?xs = ini @ g # keptBehind ?xs bs"
      and lg: "last (filter (\<lambda>b. b \<in> set bs) ?xs) = g" by blast
  have fr: "prevOf ?xs (hd ?sorted) =
              (if keptAhead ?xs bs = [] then None else Some (last (keptAhead ?xs bs)))"
    using prevOf_first [OF ids xf] by (simp only: so hf)
  have bk: "nextOf ?xs (last ?sorted) =
              (if keptBehind ?xs bs = [] then None else Some (hd (keptBehind ?xs bs)))"
    using nextOf_last [OF ids xg] by (simp only: so lg)
  have "foldl removeBall c ?sorted = c\<lparr>balls := filter (\<lambda>b. b \<notin> set ?sorted) ?xs\<rparr>"
    using ids d sub by (intro foldl_removeBall) simp_all
  then have fo: "foldl removeBall c ?sorted = c\<lparr>balls := filter (\<lambda>b. b \<notin> set bs) ?xs\<rparr>"
    by simp
  show ?thesis
    using ne
    by (simp add: removeBalls_def Let_def fr bk fo isGapClosing_def SNAP_BACK_SPEED_def
                  mult.commute)
qed

lemma removeBalls_boundaries_example:
  "removeBalls exampleChain
     [new_Ball ''c'' RED 164, new_Ball ''d'' RED 196, new_Ball ''b'' RED 132] =
   (exampleChain\<lparr>balls := [new_Ball ''a'' GREEN 100, new_Ball ''e'' BLUE 228],
                  splitPoint := Some 132, backVelocity := - 400, isClosingGap := True\<rparr>,
    Some (new_Ball ''a'' GREEN 100), Some (new_Ball ''e'' BLUE 228))"
proof -
  let ?bs = "[new_Ball ''c'' RED 164, new_Ball ''d'' RED 196, new_Ball ''b'' RED 132]"
  have "ascending (balls exampleChain)"
    by (simp add: exampleChain_def new_Chain_def new_Ball_def)
  then have h1: "ascending (filter (\<lambda>b. b \<in> set ?bs) (balls exampleChain))"
    by (rule ascending_filter)
  have h2: "distinct (map ball_id (balls exampleChain))"
    by (simp add: exampleChain_def new_Chain_def new_Ball_def)
  have h3: "?bs \<noteq> []" by simp
  have h4: "distinct ?bs" by (simp add: new_Ball_def)
  have h5: "set ?bs \<subseteq> set (balls exampleChain)"
    by (simp add: exampleChain_def new_Chain_def)
  from removeBalls_boundaries [OF h1 h2 h3 h4 h5] show ?thesis
    by (simp add: removeBalls_def removeBall_def prevOf_def nextOf_def ballsBefore_def
                  ballsBehind_def exampleChain_def new_Chain_def new_Ball_def Let_def
                  BALL_RADIUS_def SNAP_BACK_SPEED_def keptAhead_def keptBehind_def)
qed

lemma balls_initialChain:
  "balls initialChain = [new_Ball ''a'' RED 300, new_Ball ''b'' RED 268,
                         new_Ball ''c'' RED 236, new_Ball ''d'' BLUE 204]"
  by (simp add: initialChain_def spawnInitialBalls_def eval_nat_numeral new_Chain_def tail_def
                insertBall_def Let_def initialSource_def examplePath_def new_Ball_def
                BALL_RADIUS_def)

lemma initialChain_fields:
  "initialChain = new_Chain\<lparr>balls := [new_Ball ''a'' RED 300, new_Ball ''b'' RED 268,
                         new_Ball ''c'' RED 236, new_Ball ''d'' BLUE 204]\<rparr>"
  by (simp add: initialChain_def spawnInitialBalls_def eval_nat_numeral new_Chain_def tail_def
                insertBall_def Let_def initialSource_def examplePath_def new_Ball_def
                BALL_RADIUS_def)

text \<open>
  C5 does not hold of the code. \<open>removeBalls\<close> finds the two boundary balls by sorting the
  array by distance, and the chain that \<open>spawnInitialBalls\<close> builds runs from the highest
  distance at the head down. There the sort turns the run \<open>a, b, c\<close> at the head, which
  \<open>findMatch\<close> returns, into \<open>c, b, a\<close>, and both boundaries are read off as \<open>b\<close>, a
  ball that is removed. The run reaches the head, so no ball is before it
  (\<open>keptAhead\<close> is empty) and the front boundary should be null with no gap to close;
  the code returns \<open>b\<close> twice and starts closing a gap at 300.
\<close>

theorem removeBalls_returns_removed_ball:
  "balls initialChain = [new_Ball ''a'' RED 300, new_Ball ''b'' RED 268,
                         new_Ball ''c'' RED 236, new_Ball ''d'' BLUE 204]
   \<and> distinct (map ball_id (balls initialChain))
   \<and> findMatch (balls initialChain) (new_Ball ''b'' RED 268)
       = Some \<lparr>match_balls = [new_Ball ''a'' RED 300, new_Ball ''b'' RED 268,
                               new_Ball ''c'' RED 236], match_color = RED\<rparr>
   \<and> removeBalls initialChain
         [new_Ball ''a'' RED 300, new_Ball ''b'' RED 268, new_Ball ''c'' RED 236]
       = (initialChain\<lparr>balls := [new_Ball ''d'' BLUE 204], splitPoint := Some 300,
                        backVelocity := - 400, isClosingGap := True\<rparr>,
          Some (new_Ball ''b'' RED 268), Some (new_Ball ''b'' RED 268))
   \<and> keptAhead (balls initialChain)
         [new_Ball ''a'' RED 300, new_Ball ''b'' RED 268, new_Ball ''c'' RED 236] = []
   \<and> keptBehind (balls initialChain)
         [new_Ball ''a'' RED 300, new_Ball ''b'' RED 268, new_Ball ''c'' RED 236]
       = [new_Ball ''d'' BLUE 204]"
proof -
  note b = balls_initialChain
  have 1: "distinct (map ball_id (balls initialChain))" by (simp add: b new_Ball_def)
  have 2: "findMatch (balls initialChain) (new_Ball ''b'' RED 268)
       = Some \<lparr>match_balls = [new_Ball ''a'' RED 300, new_Ball ''b'' RED 268,
                               new_Ball ''c'' RED 236], match_color = RED\<rparr>"
    by (simp add: b findMatch_def ballsBefore_def ballsBehind_def Let_def new_Ball_def)
  have 3: "removeBalls initialChain
         [new_Ball ''a'' RED 300, new_Ball ''b'' RED 268, new_Ball ''c'' RED 236]
       = (initialChain\<lparr>balls := [new_Ball ''d'' BLUE 204], splitPoint := Some 300,
                        backVelocity := - 400, isClosingGap := True\<rparr>,
          Some (new_Ball ''b'' RED 268), Some (new_Ball ''b'' RED 268))"
    by (simp add: initialChain_fields removeBalls_def removeBall_def prevOf_def nextOf_def
                  ballsBefore_def ballsBehind_def Let_def new_Chain_def new_Ball_def
                  BALL_RADIUS_def SNAP_BACK_SPEED_def)
  have 4: "keptAhead (balls initialChain)
         [new_Ball ''a'' RED 300, new_Ball ''b'' RED 268, new_Ball ''c'' RED 236] = []"
    by (simp add: b keptAhead_def)
  have 5: "keptBehind (balls initialChain)
         [new_Ball ''a'' RED 300, new_Ball ''b'' RED 268, new_Ball ''c'' RED 236]
       = [new_Ball ''d'' BLUE 204]"
    by (simp add: b keptBehind_def new_Ball_def)
  from b 1 2 3 4 5 show ?thesis by (simp only: simp_thms)
qed

section \<open>Constructing a path\<close>

lemma numSegments_bounds:
  assumes "4 \<le> length cps"
  shows "1 \<le> numSegments cps" and "3 * numSegments cps \<le> int (length cps) - 1"
proof -
  have "(1::real) \<le> (real (length cps) - 1) / 3" using assms by simp
  then show "1 \<le> numSegments cps" unfolding numSegments_def by linarith
  have "of_int (numSegments cps) \<le> (real (length cps) - 1) / 3"
    unfolding numSegments_def by (rule of_int_floor_le)
  then have "of_int (3 * numSegments cps) \<le> (of_int (int (length cps) - 1) :: real)" by simp
  then show "3 * numSegments cps \<le> int (length cps) - 1" by (simp only: of_int_le_iff)
qed

lemma getPointAtT_defined:
  assumes "4 \<le> length cps"
  shows "\<exists>pt. getPointAtT cps t = Inr pt"
proof -
  define ns where "ns = numSegments cps"
  define t' where "t' = max 0 (min 1 t)"
  define si where "si = min \<lfloor>t' * of_int ns\<rfloor> (ns - 1)"
  have ns: "1 \<le> ns" "3 * ns \<le> int (length cps) - 1"
    using numSegments_bounds [OF assms] by (simp_all add: ns_def)
  have "0 \<le> t'" by (simp add: t'_def)
  then have "0 \<le> t' * of_int ns" using ns(1) by simp
  then have "0 \<le> \<lfloor>t' * of_int ns\<rfloor>" by simp
  then have lo: "0 \<le> si" using ns(1) by (simp add: si_def)
  have hi: "si \<le> ns - 1" by (simp add: si_def)
  have r: "0 \<le> si * 3 + k \<and> si * 3 + k < int (length cps)" if "0 \<le> k" "k \<le> 3" for k
    using lo hi ns(2) that by linarith
  have c: "controlPointAt cps (si * 3 + k) = Inr (cps ! nat (si * 3 + k))"
    if "0 \<le> k" "k \<le> 3" for k
    using r [OF that] by (simp add: controlPointAt_def)
  have c0: "controlPointAt cps (si * 3) = Inr (cps ! nat (si * 3))" using c [of 0] by simp
  show ?thesis
    unfolding getPointAtT_def Let_def
    by (simp add: c0 c [of 1] c [of 2] c [of 3] ns_def [symmetric] t'_def [symmetric]
                  si_def [symmetric])
qed

lemma totalLengthLoop_defined:
  assumes "4 \<le> length cps"
  shows "\<exists>r. totalLengthLoop cps steps is len prev = Inr r"
proof (induction "is" arbitrary: len prev)
  case Nil
  show ?case by simp
next
  case (Cons i "is")
  from getPointAtT_defined [OF assms] obtain pt
    where "getPointAtT cps (of_int i / of_int steps) = Inr pt" by blast
  then show ?case using Cons.IH by (simp add: Let_def)
qed

lemma arcLengthLoop_defined:
  assumes "4 \<le> length cps"
  shows "\<exists>r. arcLengthLoop cps steps is table len prev = Inr r"
proof (induction "is" arbitrary: table len prev)
  case Nil
  show ?case by simp
next
  case (Cons i "is")
  from getPointAtT_defined [OF assms] obtain pt
    where "getPointAtT cps (of_int i / of_int steps) = Inr pt" by blast
  then show ?case using Cons.IH by (simp add: Let_def)
qed

lemma calculateTotalLength_defined:
  assumes "4 \<le> length cps"
  shows "\<exists>len. calculateTotalLength cps = Inr len"
proof -
  from getPointAtT_defined [OF assms] obtain p0 where p0: "getPointAtT cps 0 = Inr p0" by blast
  from totalLengthLoop_defined [OF assms] show ?thesis
    by (simp add: calculateTotalLength_def Let_def p0)
qed

lemma buildArcLengthTable_defined:
  assumes "4 \<le> length cps"
  shows "\<exists>table. buildArcLengthTable cps = Inr table"
proof -
  from getPointAtT_defined [OF assms] obtain p0 where p0: "getPointAtT cps 0 = Inr p0" by blast
  from arcLengthLoop_defined [OF assms] show ?thesis
    by (simp add: buildArcLengthTable_def Let_def p0)
qed

lemma new_Path_succeeds:
  assumes "4 \<le> length cps"
  shows "\<exists>p. new_Path pid cps = Inr p \<and> controlPoints p = cps"
proof -
  from calculateTotalLength_defined [OF assms] obtain len
    where 1: "calculateTotalLength cps = Inr len" by blast
  from getPointAtT_defined [OF assms] obtain hole where 2: "getPointAtT cps 0 = Inr hole" by blast
  from getPointAtT_defined [OF assms] obtain spawn where 3: "getPointAtT cps 1 = Inr spawn" by blast
  from buildArcLengthTable_defined [OF assms] obtain table
    where 4: "buildArcLengthTable cps = Inr table" by blast
  show ?thesis using assms by (simp add: new_Path_def 1 2 3 4)
qed

text \<open>
  The example track is the path that the constructor returns for its four control
  points: the curve through them is the straight line, each of the 50 chords has length
  6, and the table holds the multiples of 6 up to 300.
\<close>

lemma numSegments_straight: "numSegments straightPoints = 1"
  by (simp add: numSegments_def straightPoints_def)

lemma getPointAtT_straight:
  "getPointAtT straightPoints t = Inr \<lparr>pt_x = 395 + 300 * max 0 (min 1 t), pt_y = 115\<rparr>"
proof -
  define t' where "t' = max 0 (min 1 t)"
  have "0 \<le> t'" by (simp add: t'_def)
  then have "0 \<le> \<lfloor>t'\<rfloor>" by simp
  then have si: "min \<lfloor>t'\<rfloor> 0 = 0" by simp
  have cp: "controlPointAt straightPoints 0 = Inr \<lparr>pt_x = 395, pt_y = 115\<rparr>"
       "controlPointAt straightPoints 1 = Inr \<lparr>pt_x = 495, pt_y = 115\<rparr>"
       "controlPointAt straightPoints 2 = Inr \<lparr>pt_x = 595, pt_y = 115\<rparr>"
       "controlPointAt straightPoints 3 = Inr \<lparr>pt_x = 695, pt_y = 115\<rparr>"
    by (simp_all add: controlPointAt_def straightPoints_def)
  have "getPointAtT straightPoints t =
          Inr (cubicBezier \<lparr>pt_x = 395, pt_y = 115\<rparr> \<lparr>pt_x = 495, pt_y = 115\<rparr>
                 \<lparr>pt_x = 595, pt_y = 115\<rparr> \<lparr>pt_x = 695, pt_y = 115\<rparr> t')"
    unfolding getPointAtT_def Let_def numSegments_straight t'_def [symmetric]
    by (simp add: si cp)
  also have "\<dots> = Inr \<lparr>pt_x = 395 + 300 * t', pt_y = 115\<rparr>"
    by (simp add: cubicBezier_def Let_def) algebra
  finally show ?thesis by (simp add: t'_def)
qed

lemma sqrt_36: "sqrt 36 = 6"
  by (rule real_sqrt_unique) simp_all

lemma getPointAtT_straight_step:
  assumes "k < 50"
  shows "getPointAtT straightPoints (of_int (int k + 1) / of_int 50)
           = Inr \<lparr>pt_x = 395 + 6 * real (Suc k), pt_y = 115\<rparr>"
proof -
  have "(0::real) \<le> (real k + 1) / 50" "(real k + 1) / 50 \<le> 1" using assms by simp_all
  then have "max 0 (min 1 ((real k + 1) / 50)) = (real k + 1) / 50" by simp
  then show ?thesis by (simp add: getPointAtT_straight add.commute)
qed

lemma totalLengthLoop_straight:
  "k + n = 50 \<Longrightarrow>
   totalLengthLoop straightPoints 50 [int k + 1..50] len \<lparr>pt_x = 395 + 6 * real k, pt_y = 115\<rparr>
     = Inr (len + 6 * real n)"
proof (induction n arbitrary: k len)
  case 0
  then show ?case by simp
next
  case (Suc n)
  then have k: "k < 50" and kn: "Suc k + n = 50" by simp_all
  have up: "[int k + 1..50] = (int k + 1) # [int (Suc k) + 1..50]"
    using k by (simp add: upto_rec1)
  have "totalLengthLoop straightPoints 50 [int k + 1..50] len
            \<lparr>pt_x = 395 + 6 * real k, pt_y = 115\<rparr>
        = totalLengthLoop straightPoints 50 [int (Suc k) + 1..50] (len + 6)
            \<lparr>pt_x = 395 + 6 * real (Suc k), pt_y = 115\<rparr>"
    by (simp only: up totalLengthLoop.simps getPointAtT_straight_step [OF k])
       (simp add: Let_def sqrt_36)
  also have "\<dots> = Inr (len + 6 + 6 * real n)" by (rule Suc.IH [OF kn])
  finally show ?case by (simp add: algebra_simps)
qed

lemma arcLengthLoop_straight:
  "k + n = 50 \<Longrightarrow>
   arcLengthLoop straightPoints 50 [int k + 1..50] table (6 * real k)
       \<lparr>pt_x = 395 + 6 * real k, pt_y = 115\<rparr>
     = Inr (table @ map (\<lambda>i. 6 * real i) [Suc k..<51])"
proof (induction n arbitrary: k table)
  case 0
  then show ?case by simp
next
  case (Suc n)
  then have k: "k < 50" and kn: "Suc k + n = 50" by simp_all
  have up: "[int k + 1..50] = (int k + 1) # [int (Suc k) + 1..50]"
    using k by (simp add: upto_rec1)
  have l: "[Suc k..<51] = Suc k # [Suc (Suc k)..<51]" using k by (simp add: upt_rec)
  have s: "6 * real k + 6 = 6 * real (Suc k)" by simp
  have "arcLengthLoop straightPoints 50 [int k + 1..50] table (6 * real k)
            \<lparr>pt_x = 395 + 6 * real k, pt_y = 115\<rparr>
        = arcLengthLoop straightPoints 50 [int (Suc k) + 1..50] (table @ [6 * real (Suc k)])
            (6 * real (Suc k)) \<lparr>pt_x = 395 + 6 * real (Suc k), pt_y = 115\<rparr>"
    by (simp only: up arcLengthLoop.simps getPointAtT_straight_step [OF k])
       (simp add: Let_def sqrt_36 add.commute)
  also have "\<dots> = Inr ((table @ [6 * real (Suc k)]) @ map (\<lambda>i. 6 * real i) [Suc (Suc k)..<51])"
    by (rule Suc.IH [OF kn])
  finally show ?case by (simp only: l list.map append_assoc append_Cons append_Nil)
qed

lemma new_Path_straight: "new_Path ''straight'' straightPoints = Inr examplePath"
proof -
  have 1: "calculateTotalLength straightPoints = Inr 300"
    using totalLengthLoop_straight [of 0 50 0]
    by (simp add: calculateTotalLength_def Let_def numSegments_straight SEGMENTS_PER_CURVE_def
                  getPointAtT_straight)
  have 2: "buildArcLengthTable straightPoints = Inr (map (\<lambda>i. 6 * real i) [0..<51])"
    using arcLengthLoop_straight [of 0 50 "[0]"]
    by (simp add: buildArcLengthTable_def Let_def numSegments_straight SEGMENTS_PER_CURVE_def
                  getPointAtT_straight upt_rec [of 0 51])
  show ?thesis
    by (simp add: new_Path_def 1 2 getPointAtT_straight)
       (simp add: straightPoints_def examplePath_def)
qed

text \<open>
  C9. The constructor of \<open>Path\<close> fails exactly when fewer than 4 control points are
  given, and then with its own error and without a path object. With 4 or more points it
  returns a path: every control point read while the length and the table are computed is
  inside the array. The path it returns holds the given points, at least 4 of them and so
  at least one whole segment, and its curve has a point at every parameter.
\<close>

theorem new_Path_fails_iff:
  "((\<exists>e. new_Path pid cps = Inl e) \<longleftrightarrow> length cps < 4)
   \<and> (length cps < 4 \<longrightarrow>
        new_Path pid cps = Inl (Error ''Path requires at least 4 control points''))
   \<and> (4 \<le> length cps \<longrightarrow> (\<exists>p. new_Path pid cps = Inr p))
   \<and> (\<forall>p. new_Path pid cps = Inr p \<longrightarrow>
         controlPoints p = cps \<and> 4 \<le> length (controlPoints p)
         \<and> 1 \<le> numSegments (controlPoints p)
         \<and> (\<forall>t. \<exists>pt. getPointAtT (controlPoints p) t = Inr pt))"
proof (cases "length cps < 4")
  case True
  then show ?thesis by (simp add: new_Path_def)
next
  case False
  then have ge: "4 \<le> length cps" by simp
  from new_Path_succeeds [OF ge] obtain p
    where p: "new_Path pid cps = Inr p" "controlPoints p = cps" by blast
  have "\<forall>t. \<exists>pt. getPointAtT cps t = Inr pt" using getPointAtT_defined [OF ge] by blast
  moreover have "1 \<le> numSegments cps" using numSegments_bounds(1) [OF ge] .
  ultimately show ?thesis using False ge p by simp
qed

theorem new_Path_fails_iff_witness:
  "new_Path ''short'' [\<lparr>pt_x = 395, pt_y = 115\<rparr>, \<lparr>pt_x = 495, pt_y = 115\<rparr>,
                       \<lparr>pt_x = 595, pt_y = 115\<rparr>]
     = Inl (Error ''Path requires at least 4 control points'')
   \<and> new_Path ''straight'' straightPoints = Inr examplePath
   \<and> 1 \<le> numSegments (controlPoints examplePath)"
proof -
  have a: "length [\<lparr>pt_x = 395, pt_y = 115\<rparr>, \<lparr>pt_x = 495, pt_y = 115\<rparr>,
                   \<lparr>pt_x = 595, pt_y = (115::real)\<rparr>] < 4" by simp
  from new_Path_fails_iff [of "''short''" "[\<lparr>pt_x = 395, pt_y = 115\<rparr>,
         \<lparr>pt_x = 495, pt_y = 115\<rparr>, \<lparr>pt_x = 595, pt_y = 115\<rparr>]"] a
  have 1: "new_Path ''short'' [\<lparr>pt_x = 395, pt_y = 115\<rparr>, \<lparr>pt_x = 495, pt_y = 115\<rparr>,
                       \<lparr>pt_x = 595, pt_y = 115\<rparr>]
     = Inl (Error ''Path requires at least 4 control points'')" by blast
  from new_Path_fails_iff [of "''straight''" straightPoints] new_Path_straight
  have 2: "1 \<le> numSegments (controlPoints examplePath)" by blast
  from 1 2 new_Path_straight show ?thesis by blast
qed

section \<open>Blocked spawns\<close>

lemma spawnLoop_stop:
  "\<not> (acc \<ge> i \<and> real (getLength ch) < m) \<Longrightarrow>
   spawnLoop src p m i (acc, ch, n) = Some (acc, ch, n)"
  by (subst spawnLoop.simps) auto

lemma spawnLoop_step:
  "acc \<ge> i \<Longrightarrow> real (getLength ch) < m \<Longrightarrow>
   spawnLoop src p m i (acc, ch, n) =
     spawnLoop src p m i (acc - i, fst (spawnBall src ch p),
                          if snd (spawnBall src ch p) \<noteq> None then n + 1 else n)"
  by (subst spawnLoop.simps) (simp add: case_prod_unfold)

lemma pushBallsBack_length [simp]: "length (pushBallsBack d xs) = length xs"
  by (induction xs arbitrary: d) (simp_all add: Let_def)

lemma insertAfter_length:
  "ball_id a \<in> ball_id ` set xs \<Longrightarrow> length (insertAfter b a xs) = Suc (length xs)"
  by (induction xs) auto

lemma spawnBall_blocked:
  "tailTooClose ch p \<Longrightarrow> spawnBall src ch p = (ch, None)"
  by (auto simp: spawnBall_def tailTooClose_def Let_def mult.commute split: option.splits)

lemma spawnBall_length:
  "length (balls (fst (spawnBall src ch p))) =
     length (balls ch) + (if snd (spawnBall src ch p) \<noteq> None then 1 else 0)"
proof (cases "balls ch = []")
  case True
  then show ?thesis
    by (simp add: spawnBall_def tail_def Let_def insertBall_def case_prod_unfold)
next
  case False
  then have "ball_id (last (balls ch)) \<in> ball_id ` set (balls ch)" by simp
  then show ?thesis using False
    by (simp add: spawnBall_def tail_def Let_def insertBall_def case_prod_unfold
                  insertAfter_length)
qed

lemma spawnLoop_total:
  assumes i: "0 < i"
  shows "\<exists>acc' ch' n'. spawnLoop src p m i (acc, ch, n) = Some (acc', ch', n')
           \<and> n \<le> n' \<and> length (balls ch') = length (balls ch) + (n' - n)
           \<and> (real (length (balls ch')) < m \<longrightarrow> acc' < i)
           \<and> (m \<le> real (length (balls ch)) \<longrightarrow> ch' = ch \<and> n' = n \<and> acc' = acc)
           \<and> (tailTooClose ch p \<longrightarrow> ch' = ch \<and> n' = n)"
proof (induction "nat \<lfloor>acc / i\<rfloor>" arbitrary: acc ch n rule: less_induct)
  case less
  show ?case
  proof (cases "acc \<ge> i \<and> real (getLength ch) < m")
    case False
    then show ?thesis
      by (auto simp: spawnLoop_stop getLength_def)
  next
    case True
    let ?ch = "fst (spawnBall src ch p)"
    let ?n = "if snd (spawnBall src ch p) \<noteq> None then n + 1 else n"
    from True i have "1 \<le> acc / i" by (simp add: pos_le_divide_eq)
    moreover have "(acc - i) / i = acc / i - 1" using i by (simp add: diff_divide_distrib)
    ultimately have "nat \<lfloor>(acc - i) / i\<rfloor> < nat \<lfloor>acc / i\<rfloor>" by simp
    from less [OF this, of ?ch ?n] obtain acc' ch' n' where
      r: "spawnLoop src p m i (acc - i, ?ch, ?n) = Some (acc', ch', n')"
      and mono: "?n \<le> n'"
      and len: "length (balls ch') = length (balls ?ch) + (n' - ?n)"
      and left: "real (length (balls ch')) < m \<longrightarrow> acc' < i"
      and blocked: "tailTooClose ?ch p \<longrightarrow> ch' = ?ch \<and> n' = ?n"
      by blast
    have eq: "spawnLoop src p m i (acc, ch, n) = Some (acc', ch', n')"
      using True r by (simp add: spawnLoop_step)
    have 1: "n \<le> n'" using mono by (simp split: if_splits)
    have 2: "length (balls ch') = length (balls ch) + (n' - n)"
      using len mono spawnBall_length [of src ch p] by (simp split: if_splits)
    have 3: "m \<le> real (length (balls ch)) \<longrightarrow> ch' = ch \<and> n' = n \<and> acc' = acc"
      using True by (simp add: getLength_def)
    have 4: "tailTooClose ch p \<longrightarrow> ch' = ch \<and> n' = n"
      using blocked by (auto simp: spawnBall_blocked)
    from eq 1 2 left 3 4 show ?thesis by blast
  qed
qed

lemmas example_defs =
  examplePath_def exampleSource_def exampleSpawner_def oneBallChain_def blockedChain_def
  new_Chain_def new_Ball_def

text \<open>
  C2, as amended. With a positive spawn rate \<open>update\<close> returns, and the count it returns
  is the number of balls added to the chain. A spawn that the tail spacing blocks is not
  performed and its interval is used up: if the tail is too close at the call, the chain
  is unchanged and the count is 0, and whenever the call ends with the chain below
  \<open>maxBalls\<close>, less than one interval is left in the accumulator. A spawn that the
  capacity blocks is not performed and not counted either, but its time stays in the
  accumulator: with the chain at \<open>maxBalls\<close> at the call, the accumulator just grows by
  \<open>deltaTime\<close>.
\<close>

theorem BallSpawner_update_blocked:
  assumes "0 < spawnRate sp"
  shows "\<exists>sp' chain' spawned.
           BallSpawner_update src sp deltaTime chain path maxBalls = Some (sp', chain', spawned)
         \<and> length (balls chain') = length (balls chain) + spawned
         \<and> (real (length (balls chain')) < maxBalls \<longrightarrow> accumulator sp' < 1 / spawnRate sp)
         \<and> (tailTooClose chain path \<longrightarrow> chain' = chain \<and> spawned = 0)
         \<and> (maxBalls \<le> real (length (balls chain)) \<longrightarrow>
               chain' = chain \<and> spawned = 0
               \<and> accumulator sp' = accumulator sp + deltaTime)"
proof -
  from assms have i: "0 < 1 / spawnRate sp" by simp
  from spawnLoop_total [OF i, of src path maxBalls "accumulator sp + deltaTime" chain 0]
  obtain acc' ch' n' where
    r: "spawnLoop src path maxBalls (1 / spawnRate sp) (accumulator sp + deltaTime, chain, 0)
          = Some (acc', ch', n')"
    and len: "length (balls ch') = length (balls chain) + (n' - 0)"
    and left: "real (length (balls ch')) < maxBalls \<longrightarrow> acc' < 1 / spawnRate sp"
    and cap: "maxBalls \<le> real (length (balls chain)) \<longrightarrow>
                ch' = chain \<and> n' = 0 \<and> acc' = accumulator sp + deltaTime"
    and blocked: "tailTooClose chain path \<longrightarrow> ch' = chain \<and> n' = 0"
    by blast
  have u: "BallSpawner_update src sp deltaTime chain path maxBalls
             = Some (sp\<lparr>accumulator := acc'\<rparr>, ch', n')"
    using assms r by (simp add: BallSpawner_update_def Let_def)
  show ?thesis
    apply (rule exI [of _ "sp\<lparr>accumulator := acc'\<rparr>"], rule exI [of _ ch'], rule exI [of _ n'])
    using u len left cap blocked by simp
qed

theorem BallSpawner_update_blocked_witness:
  "BallSpawner_update exampleSource exampleSpawner (5/2) blockedChain examplePath 10
     = Some (exampleSpawner\<lparr>accumulator := 1/2\<rparr>, blockedChain, 0)"
proof -
  have h: "0 < spawnRate exampleSpawner" by (simp add: exampleSpawner_def)
  have t: "tailTooClose blockedChain examplePath"
    by (simp add: tailTooClose_def tail_def BALL_RADIUS_def example_defs)
  have c: "real (length (balls blockedChain)) < 10" by (simp add: example_defs)
  from BallSpawner_update_blocked [OF h, of exampleSource "5/2" blockedChain examplePath 10]
  obtain sp' where "BallSpawner_update exampleSource exampleSpawner (5/2) blockedChain examplePath 10
      = Some (sp', blockedChain, 0)" and "accumulator sp' < 1"
    using t c by (auto simp: exampleSpawner_def)
  moreover have "spawnLoop exampleSource examplePath 10 1 (5/2, blockedChain, 0)
      = Some (1/2, blockedChain, 0)"
    using t c by (simp add: spawnLoop_step spawnLoop_stop spawnBall_blocked getLength_def)
  moreover have "spawnRate exampleSpawner = 1" "accumulator exampleSpawner = 0"
    by (simp_all add: exampleSpawner_def)
  ultimately show ?thesis
    by (simp add: BallSpawner_update_def Let_def)
qed

text \<open>
  C2 as stated fails for the capacity: with one ball per second and a chain of one ball,
  a tick of one second at \<open>maxBalls = 1\<close> spawns nothing and leaves the whole second in
  the accumulator. The next tick of half a second at \<open>maxBalls = 2\<close> then spawns a ball,
  which the same tick from an empty accumulator does not.
\<close>

theorem BallSpawner_update_carries_capacity_block:
  "BallSpawner_update exampleSource exampleSpawner 1 oneBallChain examplePath 1
     = Some (exampleSpawner\<lparr>accumulator := 1\<rparr>, oneBallChain, 0)
   \<and> BallSpawner_update exampleSource (exampleSpawner\<lparr>accumulator := 1\<rparr>) (1/2) oneBallChain
        examplePath 2
     = Some (exampleSpawner\<lparr>accumulator := 1/2\<rparr>,
             oneBallChain\<lparr>balls := [new_Ball ''a'' GREEN 100, new_Ball ''n'' RED 300]\<rparr>, 1)
   \<and> BallSpawner_update exampleSource exampleSpawner (1/2) oneBallChain examplePath 2
     = Some (exampleSpawner\<lparr>accumulator := 1/2\<rparr>, oneBallChain, 0)"
proof -
  have s: "spawnBall exampleSource oneBallChain examplePath
           = (oneBallChain\<lparr>balls := [new_Ball ''a'' GREEN 100, new_Ball ''n'' RED 300]\<rparr>,
              Some (new_Ball ''n'' RED 300))"
    by (simp add: spawnBall_def tail_def insertBall_def Let_def BALL_RADIUS_def example_defs)
  have 1: "spawnLoop exampleSource examplePath 1 1 (1, oneBallChain, 0)
           = Some (1, oneBallChain, 0)"
    by (rule spawnLoop_stop) (simp add: getLength_def example_defs)
  have 2: "spawnLoop exampleSource examplePath 2 1 (3/2, oneBallChain, 0)
           = Some (1/2, oneBallChain\<lparr>balls := [new_Ball ''a'' GREEN 100, new_Ball ''n'' RED 300]\<rparr>, 1)"
  proof -
    have "spawnLoop exampleSource examplePath 2 1 (3/2, oneBallChain, 0)
          = spawnLoop exampleSource examplePath 2 1
              (3/2 - 1, fst (spawnBall exampleSource oneBallChain examplePath),
               if snd (spawnBall exampleSource oneBallChain examplePath) \<noteq> None then 0 + 1 else 0)"
      by (rule spawnLoop_step) (simp_all add: getLength_def example_defs)
    also have "\<dots> = Some (1/2,
        oneBallChain\<lparr>balls := [new_Ball ''a'' GREEN 100, new_Ball ''n'' RED 300]\<rparr>, 1)"
      by (simp add: s spawnLoop_stop)
    finally show ?thesis .
  qed
  have 3: "spawnLoop exampleSource examplePath 2 1 (1/2, oneBallChain, 0)
           = Some (1/2, oneBallChain, 0)"
    by (rule spawnLoop_stop) simp
  have r: "spawnRate exampleSpawner = 1" "accumulator exampleSpawner = 0"
    by (simp_all add: exampleSpawner_def)
  show ?thesis
    by (simp add: BallSpawner_update_def Let_def r 1 2 3)
qed

section \<open>The ordering of the chain\<close>

lemma sqrt_less_numeral: "0 \<le> y \<Longrightarrow> sqrt x < y \<longleftrightarrow> x < y * y"
  by (metis real_sqrt_less_iff real_sqrt_abs2 abs_of_nonneg)

lemma spawnInitialBalls_two:
  "map distanceAlongPath (balls (spawnInitialBalls src new_Chain path 2)) =
     [totalLength path, totalLength path - 2 * BALL_RADIUS]"
  by (simp add: spawnInitialBalls_def numeral_2_eq_2 new_Chain_def tail_def insertBall_def
                 Let_def case_prod_unfold new_Ball_def)

text \<open>
  Removing balls, the normal advance, the gap-closing advance and the timed spawn at the
  tail keep a chain in strictly ascending order.
\<close>

lemma ascending_shift:
  "ascending (map (\<lambda>b. b\<lparr>distanceAlongPath := distanceAlongPath b + k\<rparr>) xs) = ascending xs"
  by (induction xs rule: ascending.induct) simp_all

lemma ascending_append:
  "ascending (xs @ ys) \<longleftrightarrow>
     ascending xs \<and> ascending ys
     \<and> (xs \<noteq> [] \<and> ys \<noteq> [] \<longrightarrow> distanceAlongPath (last xs) < distanceAlongPath (hd ys))"
proof (induction xs rule: ascending.induct)
  case 1
  show ?case by simp
next
  case (2 b)
  show ?case by (cases ys) auto
next
  case (3 a b bs)
  then show ?case by auto
qed

lemma spacedAscending_ascending: "spacedAscending xs \<Longrightarrow> ascending xs"
  by (induction xs rule: ascending.induct) (simp_all add: BALL_RADIUS_def)

lemma ascending_updateNormalMovement:
  "ascending (balls c) \<Longrightarrow> ascending (balls (updateNormalMovement c dt))"
  using ascending_shift [of "- (velocity c * dt)" "balls c"]
  by (simp add: balls_updateNormalMovement)

lemma ascending_updateGapClosing:
  assumes "ascending (balls c)"
  shows "ascending (balls (updateGapClosing c dt))"
proof (cases "splitPoint c")
  case None
  with assms show ?thesis by (simp add: updateGapClosing_def)
next
  case (Some sp)
  let ?mv = "\<lambda>b. b\<lparr>distanceAlongPath := distanceAlongPath b + backVelocity c * dt\<rparr>"
  define front where "front = takeWhile (\<lambda>b. \<not> distanceAlongPath b \<ge> sp) (balls c)"
  define rear where "rear = dropWhile (\<lambda>b. \<not> distanceAlongPath b \<ge> sp) (balls c)"
  have u: "updateGapClosing c dt =
             (case map ?mv rear of
                [] \<Rightarrow> c
              | backStart # rest \<Rightarrow>
                  (if front = [] then c\<lparr>balls := backStart # rest\<rparr>
                   else if distanceAlongPath backStart - distanceAlongPath (last front)
                             \<le> BALL_RADIUS * 2
                        then snapGapClosed c front backStart rest
                        else c\<lparr>balls := front @ backStart # rest\<rparr>))"
    unfolding updateGapClosing_def front_def rear_def Let_def Some by simp
  have "ascending (front @ rear)" using assms by (simp add: front_def rear_def)
  then have f: "ascending front" and b: "ascending rear"
    by (simp_all only: ascending_append)
  have m: "ascending (map ?mv rear)" using b by (simp only: ascending_shift)
  show ?thesis
  proof (cases rear)
    case Nil
    with assms show ?thesis by (simp add: u)
  next
    case (Cons b0 rest)
    then have mv: "map ?mv rear = ?mv b0 # map ?mv rest" by simp
    show ?thesis
    proof (cases "front = []")
      case True
      with m show ?thesis by (simp add: u mv)
    next
      case False
      show ?thesis
      proof (cases "distanceAlongPath (?mv b0) - distanceAlongPath (last front) \<le> BALL_RADIUS * 2")
        case snap: True
        define d where "d = distanceAlongPath (last front) + BALL_RADIUS * 2"
        have bu: "balls (updateGapClosing c dt)
                 = front @ (?mv b0)\<lparr>distanceAlongPath := d\<rparr> # repackFrom d (map ?mv rest)"
          using False snap by (simp add: u mv snapGapClosed_def Let_def d_def)
        have "spacedAscending ((?mv b0)\<lparr>distanceAlongPath := d\<rparr> # repackFrom d (map ?mv rest))"
          using spacedAscending_repackFrom [of "(?mv b0)\<lparr>distanceAlongPath := d\<rparr>" "map ?mv rest"]
          by simp
        then have "ascending ((?mv b0)\<lparr>distanceAlongPath := d\<rparr> # repackFrom d (map ?mv rest))"
          by (rule spacedAscending_ascending)
        moreover have "distanceAlongPath (last front) < d" by (simp add: d_def BALL_RADIUS_def)
        ultimately show ?thesis using f False
          by (simp only: bu ascending_append) simp
      next
        case nosnap: False
        have bu: "balls (updateGapClosing c dt) = front @ map ?mv rear"
          using False nosnap by (simp add: u mv)
        have "distanceAlongPath (last front) < distanceAlongPath (hd (map ?mv rear))"
          using nosnap by (simp add: mv BALL_RADIUS_def)
        with f m show ?thesis by (simp only: bu ascending_append) simp
      qed
    qed
  qed
qed

lemma ascending_Chain_update:
  "ascending (balls c) \<Longrightarrow> ascending (balls (Chain_update c dt))"
  by (simp add: Chain_update_def ascending_updateGapClosing ascending_updateNormalMovement)

lemma ascending_removeBall:
  "ascending (balls c) \<Longrightarrow> ascending (balls (removeBall c b))"
  by (simp add: removeBall_def ascending_filter)

lemma ascending_foldl_removeBall:
  "ascending (balls c) \<Longrightarrow> ascending (balls (foldl removeBall c bs))"
  by (induction bs arbitrary: c) (simp_all add: ascending_removeBall)

lemma ascending_removeBalls:
  "ascending (balls c) \<Longrightarrow> ascending (balls (fst (removeBalls c bs)))"
  by (simp add: removeBalls_def Let_def ascending_foldl_removeBall split: option.splits)

lemma insertAfter_last:
  assumes "distinct (map ball_id xs)" and "xs \<noteq> []"
  shows "insertAfter ball (last xs) xs = xs @ [ball]"
  using assms
proof (induction xs)
  case Nil
  then show ?case by simp
next
  case (Cons x xs)
  show ?case
  proof (cases "xs = []")
    case True
    then show ?thesis by simp
  next
    case False
    then have "last xs \<in> set xs" by simp
    with Cons.prems have "ball_id x \<noteq> ball_id (last xs)" by auto
    with Cons False show ?thesis by simp
  qed
qed

lemma ascending_spawnBall:
  assumes "ascending (balls c)" and "distinct (map ball_id (balls c))"
  shows "ascending (balls (fst (spawnBall src c p)))"
proof (cases "balls c = []")
  case True
  then show ?thesis
    by (simp add: spawnBall_def tail_def Let_def insertBall_def case_prod_unfold)
next
  case False
  show ?thesis
  proof (cases "tailTooClose c p")
    case True
    with assms show ?thesis by (simp add: spawnBall_blocked)
  next
    case far: False
    let ?ball = "new_Ball (fst (src (balls c))) (snd (src (balls c))) (totalLength p)"
    have "balls (fst (spawnBall src c p)) = balls c @ [?ball]"
      using False far insertAfter_last [OF assms(2) False]
      by (simp add: spawnBall_def tailTooClose_def tail_def Let_def insertBall_def
                    case_prod_unfold mult.commute)
    moreover have "distanceAlongPath (last (balls c)) < distanceAlongPath ?ball"
      using False far by (simp add: tailTooClose_def tail_def new_Ball_def BALL_RADIUS_def)
    ultimately show ?thesis using assms(1) False by (simp add: ascending_append)
  qed
qed

text \<open>
  C3 does not hold of the code. \<open>spawnInitialBalls\<close> appends each new ball behind the tail
  while it lowers the distance, so with two balls the chain runs from the length of the
  path down. And a fired ball that hits a chain ball on its hole side is given that ball's
  distance minus \<open>2 * BALL_RADIUS\<close> and inserted behind the ball before it: in a chain at
  the minimum spacing this is the distance of that ball, and the two are at the same
  place, here at 100. The fired ball of the example is out of reach of every chain ball
  before the step and collides in it.
\<close>

theorem insertion_breaks_ordering:
  "\<not> ascending (balls (spawnInitialBalls src new_Chain path 2))
   \<and> ascending (balls exampleChain)
   \<and> checkBallChainCollision firedBall exampleChain straightPoint straightTangent = None
   \<and> map distanceAlongPath
       (balls (fst (updateFiredBall straightPoint straightTangent (1/80) exampleChain firedBall)))
     = [100, 100, 132, 164, 196, 228]
   \<and> \<not> ascending
       (balls (fst (updateFiredBall straightPoint straightTangent (1/80) exampleChain firedBall)))"
proof -
  have 1: "\<not> ascending (balls (spawnInitialBalls src new_Chain path 2))"
    by (simp add: spawnInitialBalls_def numeral_2_eq_2 new_Chain_def tail_def insertBall_def
                 Let_def case_prod_unfold new_Ball_def BALL_RADIUS_def)
  have 2: "ascending (balls exampleChain)"
    by (simp add: exampleChain_def new_Chain_def new_Ball_def)
  have 3: "checkBallChainCollision firedBall exampleChain straightPoint straightTangent = None"
    by (simp add: checkBallChainCollision_def firedBall_def exampleChain_def
                  new_Chain_def new_Ball_def straightPoint_def straightTangent_def distance_def
                  Let_def BALL_RADIUS_def sqrt_less_numeral)
  have c: "checkBallChainCollision (updatePosition firedBall (1/80)) exampleChain
             straightPoint straightTangent
           = Some \<lparr>collidedWith = new_Ball ''b'' RED 132, insertBefore = True,
                   insertionDistance = 100\<rparr>"
    by (simp add: checkBallChainCollision_def updatePosition_def firedBall_def exampleChain_def
                  new_Chain_def new_Ball_def straightPoint_def straightTangent_def distance_def
                  Let_def BALL_RADIUS_def sqrt_less_numeral)
  have b: "balls (fst (updateFiredBall straightPoint straightTangent (1/80) exampleChain firedBall))
           = [new_Ball ''a'' GREEN 100,
              \<lparr>ball_id = ''s'', color = YELLOW, distanceAlongPath = 100, ball_state = INSERTED,
                ball_x = 520, ball_y = 140, velocityX = 480, velocityY = - 640\<rparr>,
              new_Ball ''b'' RED 132, new_Ball ''c'' RED 164, new_Ball ''d'' RED 196,
              new_Ball ''e'' BLUE 228]"
    by (simp add: updateFiredBall_def c Let_def)
       (simp add: updatePosition_def isOffScreen_def firedBall_def CANVAS_WIDTH_def
                  CANVAS_HEIGHT_def markInserted_def exampleChain_def new_Chain_def new_Ball_def
                  prevOf_def ballsBefore_def insertBall_def checkAndProcessMatch_def
                  findMatch_def ballsBehind_def BALL_RADIUS_def Let_def)
  show ?thesis using 1 2 3 by (simp add: b) (simp add: new_Ball_def)
qed

end
